theory Spec2Isabelle
  imports Complex_Main
begin

section \<open>The SLO aggregation task (RunSLOChecksTask.execute)\<close>

text \<open>
  The model follows \<^verbatim>\<open>RunSLOChecksTask.execute\<close>. A \<^verbatim>\<open>Date\<close> is its
  \<^verbatim>\<open>getTime()\<close> value, an integer number of milliseconds. Everything outside the
  task (the ClickHouse client, the Mongo collection, the imported helper
  \<^verbatim>\<open>injectTimeFilter\<close>, the logger) is a field of an environment record or of the
  world record the task transforms. The tasks of one tick run on a queue; the model runs
  them one after the other in the order of the \<^verbatim>\<open>for\<close> loop.
\<close>

subsection \<open>Time\<close>

type_synonym time = int

definition ms_1m :: int where
  "ms_1m = 60000"

definition ms_1h :: int where
  "ms_1h = 3600000"

text \<open>
  \<^verbatim>\<open>d.toISOString().slice(0, 19).replace('T', ' ')\<close> keeps the date down to the second:
  the milliseconds are cut off. The bound is kept as the instant it denotes.
\<close>

definition sql_time :: "time \<Rightarrow> time" where
  "sql_time t = t - t mod 1000"

text \<open>ClickHouse's \<^verbatim>\<open>toStartOfMinute\<close>.\<close>

definition toStartOfMinute :: "time \<Rightarrow> time" where
  "toStartOfMinute t = t - t mod 60000"

subsection \<open>Data\<close>

text \<open>
  The SLO document. \<^verbatim>\<open>filter\<close> is named \<open>filter_str\<close> here and \<^verbatim>\<open>id\<close> is
  \<open>sloId\<close> (the name the log context gives it). An absent field is \<open>None\<close>.
\<close>

record slo =
  sloId :: string
  lastAggregatedAt :: "time option"
  filter_str :: "string option"
  goodCondition :: "string option"
  numeratorQuery :: "string option"
  denominatorQuery :: "string option"
  sourceTable :: string

text \<open>JavaScript truthiness of an optional string: absent and the empty string are falsy.\<close>

definition truthy :: "string option \<Rightarrow> bool" where
  "truthy s = (case s of None \<Rightarrow> False | Some x \<Rightarrow> x \<noteq> [])"

text \<open>\<^verbatim>\<open>s\<close> interpolated into a template string; an absent value prints as "undefined".\<close>

definition interpolate :: "string option \<Rightarrow> string" where
  "interpolate s = (case s of None \<Rightarrow> ''undefined'' | Some x \<Rightarrow> x)"

text \<open>An event of a source table.\<close>

record event =
  Timestamp :: time
  ServiceName :: string
  SeverityNumber :: int

text \<open>A row of \<^verbatim>\<open>default.slo_aggregates\<close>.\<close>

record row =
  slo_id :: string
  timestamp :: time
  numerator_count :: nat
  denominator_count :: nat

text \<open>
  The statement \<^verbatim>\<open>aggQuery\<close>: the template is fixed, so the statement is given by the
  values interpolated into it. The filter and the good condition are kept as texts.
\<close>

record agg_query =
  q_slo_id :: string
  q_goodCondition :: string
  q_sourceTable :: string
  q_filter :: string
  q_from :: time
  q_to :: time

datatype exn = Exn string

datatype call =
  Command agg_query
  | Query string
  | Insert row
  | UpdateOne string time

datatype level = Info | Warn | Error

datatype log_entry = LogEntry level "string option" "exn option" string

text \<open>
  What the task reads and writes: the aggregate table, the SLO collection, the requests
  sent to ClickHouse and Mongo (in the order they are sent) and the log.
\<close>

record world =
  slo_aggregates :: "row list"
  slos :: "slo list"
  calls :: "call list"
  logs :: "log_entry list"

text \<open>
  What the task depends on and does not define: the time zone of the process (the offset
  of local time at an instant, and the offset by which a local time is read back, which
  for a local time that a clock change repeats is the offset before the change); the
  contents of the source tables; the truth of an SQL condition on an event; how SQL reads
  a condition text at its top level (the operands of its \<^verbatim>\<open>OR\<close> before the last
  one, and the last one; a text without a top level \<^verbatim>\<open>OR\<close> is its own last
  operand); \<^verbatim>\<open>injectTimeFilter\<close> (imported from another module; it may throw); the
  answer of a count query (the \<^verbatim>\<open>count\<close> column of the rows of \<^verbatim>\<open>data\<close>); and
  whether a request fails.
\<close>

record env =
  localTZA_utc :: "time \<Rightarrow> int"
  localTZA_local :: "time \<Rightarrow> int"
  events :: "string \<Rightarrow> event list"
  holds :: "string \<Rightarrow> event \<Rightarrow> bool"
  or_split :: "string \<Rightarrow> string list \<times> string"
  command_error :: "agg_query \<Rightarrow> exn option"
  injectTimeFilter :: "string option \<Rightarrow> time \<Rightarrow> time \<Rightarrow> exn + string"
  query :: "string \<Rightarrow> exn + nat list"
  insert_error :: "row \<Rightarrow> exn option"
  updateOne_error :: "string \<Rightarrow> time \<Rightarrow> exn option"

text \<open>
  \<^verbatim>\<open>lastMinute.setSeconds(0, 0)\<close>: the instant is taken to local time, seconds and
  milliseconds are set to zero there, and the local time is read back as an instant.
\<close>

definition setSeconds00 :: "env \<Rightarrow> time \<Rightarrow> time" where
  "setSeconds00 E t =
     (let local = t + localTZA_utc E t;
          date = local - local mod 60000
      in date - localTZA_local E date)"

subsection \<open>The store\<close>

text \<open>
  The \<^verbatim>\<open>WHERE\<close> clause of \<^verbatim>\<open>aggQuery\<close>: the filter text is written in front of
  \<^verbatim>\<open>AND Timestamp >= ... AND Timestamp < ...\<close> without parentheses, and
  \<^verbatim>\<open>AND\<close> binds tighter than \<^verbatim>\<open>OR\<close>. So the two bounds go with the last
  operand of a top level \<^verbatim>\<open>OR\<close> of the filter, and an event that satisfies an
  earlier operand is selected whatever its time.
\<close>

definition where_clause :: "env \<Rightarrow> agg_query \<Rightarrow> event \<Rightarrow> bool" where
  "where_clause E q e =
     (case or_split E (q_filter q) of
        (earlier, final) \<Rightarrow>
          list_ex (\<lambda>c. holds E c e) earlier \<or>
          (holds E final e \<and> q_from q \<le> Timestamp e \<and> Timestamp e < q_to q))"

text \<open>
  The \<^verbatim>\<open>INSERT ... SELECT\<close> of \<^verbatim>\<open>aggQuery\<close>: the events of the source table that
  the \<^verbatim>\<open>WHERE\<close> clause selects, grouped by their minute; one row for each group.
\<close>

definition in_scope :: "env \<Rightarrow> agg_query \<Rightarrow> event list" where
  "in_scope E q = filter (where_clause E q) (events E (q_sourceTable q))"

definition group_row :: "env \<Rightarrow> agg_query \<Rightarrow> time \<Rightarrow> row" where
  "group_row E q m =
     (let grp = filter (\<lambda>e. toStartOfMinute (Timestamp e) = m) (in_scope E q)
      in \<lparr> slo_id = q_slo_id q,
           timestamp = m,
           numerator_count = length (filter (holds E (q_goodCondition q)) grp),
           denominator_count = length grp \<rparr>)"

definition select_rows :: "env \<Rightarrow> agg_query \<Rightarrow> row list" where
  "select_rows E q =
     map (group_row E q) (remdups (map (\<lambda>e. toStartOfMinute (Timestamp e)) (in_scope E q)))"

text \<open>
  \<^verbatim>\<open>slo_aggregates\<close> is a SummingMergeTree ordered by \<^verbatim>\<open>(slo_id, timestamp)\<close>: the
  bucket of a key is the sum of the rows inserted under it.
\<close>

definition bucket :: "row list \<Rightarrow> string \<Rightarrow> time \<Rightarrow> nat \<times> nat" where
  "bucket rs sid m =
     (let ks = filter (\<lambda>r. slo_id r = sid \<and> timestamp r = m) rs
      in (sum_list (map numerator_count ks), sum_list (map denominator_count ks)))"

text \<open>\<^verbatim>\<open>SLO.updateOne({ _id }, { lastAggregatedAt })\<close>: the first matching document.\<close>

fun updateOne :: "string \<Rightarrow> time \<Rightarrow> slo list \<Rightarrow> slo list" where
  "updateOne sid t [] = []"
| "updateOne sid t (d # ds) =
     (if sloId d = sid then d\<lparr>lastAggregatedAt := Some t\<rparr> # ds else d # updateOne sid t ds)"

fun watermark :: "string \<Rightarrow> slo list \<Rightarrow> time option option" where
  "watermark sid [] = None"
| "watermark sid (d # ds) = (if sloId d = sid then Some (lastAggregatedAt d) else watermark sid ds)"

subsection \<open>The task\<close>

definition log_write :: "log_entry \<Rightarrow> world \<Rightarrow> world" where
  "log_write l w = w\<lparr>logs := logs w @ [l]\<rparr>"

definition send :: "call \<Rightarrow> world \<Rightarrow> world" where
  "send c w = w\<lparr>calls := calls w @ [c]\<rparr>"

text \<open>Lines 80 to 91: the window, or \<open>None\<close> where the task returns early.\<close>

definition aggregation_window :: "time \<Rightarrow> slo \<Rightarrow> (time \<times> time) option" where
  "aggregation_window endTime s =
     (let startTime = (case lastAggregatedAt s of Some t \<Rightarrow> t | None \<Rightarrow> endTime - ms_1m)
      in if startTime \<ge> endTime then None
         else if endTime - startTime > ms_1h then Some (endTime - ms_1h, endTime)
         else Some (startTime, endTime))"

definition aggQuery :: "slo \<Rightarrow> time \<Rightarrow> time \<Rightarrow> agg_query" where
  "aggQuery s startTime endTime =
     \<lparr> q_slo_id = sloId s,
       q_goodCondition = interpolate (goodCondition s),
       q_sourceTable = sourceTable s,
       q_filter = interpolate (filter_str s),
       q_from = sql_time startTime,
       q_to = sql_time endTime \<rparr>"

text \<open>The builder branch: a thrown error leaves the table as it was.\<close>

definition builder_mode :: "env \<Rightarrow> slo \<Rightarrow> time \<Rightarrow> time \<Rightarrow> world \<Rightarrow> world \<times> exn option" where
  "builder_mode E s startTime endTime w =
     (let q = aggQuery s startTime endTime; w1 = send (Command q) w
      in case command_error E q of
           Some e \<Rightarrow> (w1, Some e)
         | None \<Rightarrow> (w1\<lparr>slo_aggregates := slo_aggregates w1 @ select_rows E q\<rparr>, None))"

text \<open>\<^verbatim>\<open>Number(data?.[0]?.count || 0)\<close>.\<close>

definition first_count :: "nat list \<Rightarrow> nat" where
  "first_count d = (case d of [] \<Rightarrow> 0 | c # _ \<Rightarrow> c)"

text \<open>
  The raw SQL branch. Both queries are sent before either is awaited; where both fail
  the model reports the numerator's error.
\<close>

definition raw_sql_mode :: "env \<Rightarrow> slo \<Rightarrow> time \<Rightarrow> time \<Rightarrow> world \<Rightarrow> world \<times> exn option" where
  "raw_sql_mode E s startTime endTime w =
     (case injectTimeFilter E (numeratorQuery s) startTime endTime of
        Inl e \<Rightarrow> (w, Some e)
      | Inr numQuery \<Rightarrow>
     (case injectTimeFilter E (denominatorQuery s) startTime endTime of
        Inl e \<Rightarrow> (w, Some e)
      | Inr denQuery \<Rightarrow>
     (let w1 = send (Query denQuery) (send (Query numQuery) w)
      in case query E numQuery of
        Inl e \<Rightarrow> (w1, Some e)
      | Inr numData \<Rightarrow>
     (case query E denQuery of
        Inl e \<Rightarrow> (w1, Some e)
      | Inr denData \<Rightarrow>
     (let numerator = first_count numData;
          denominator = first_count denData
      in if denominator > 0 \<or> numerator > 0 then
           (let r = \<lparr> slo_id = sloId s, timestamp = startTime,
                      numerator_count = numerator, denominator_count = denominator \<rparr>;
                w2 = send (Insert r) w1
            in case insert_error E r of
                 Some e \<Rightarrow> (w2, Some e)
               | None \<Rightarrow> (w2\<lparr>slo_aggregates := slo_aggregates w2 @ [r]\<rparr>, None))
         else (w1, None))))))"

definition aggregate :: "env \<Rightarrow> slo \<Rightarrow> time \<Rightarrow> time \<Rightarrow> world \<Rightarrow> world \<times> exn option" where
  "aggregate E s startTime endTime w =
     (if truthy (filter_str s) \<and> truthy (goodCondition s)
      then builder_mode E s startTime endTime w
      else raw_sql_mode E s startTime endTime w)"

definition update_watermark :: "env \<Rightarrow> slo \<Rightarrow> time \<Rightarrow> world \<Rightarrow> world \<times> exn option" where
  "update_watermark E s endTime w =
     (let w1 = send (UpdateOne (sloId s) endTime) w
      in case updateOne_error E (sloId s) endTime of
           Some e \<Rightarrow> (w1, Some e)
         | None \<Rightarrow> (w1\<lparr>slos := updateOne (sloId s) endTime (slos w1)\<rparr>, None))"

text \<open>The body of the \<^verbatim>\<open>try\<close> block: the world it leaves and the error it throws, if any.\<close>

definition try_block :: "env \<Rightarrow> time \<Rightarrow> slo \<Rightarrow> world \<Rightarrow> world \<times> exn option" where
  "try_block E endTime s w =
     (let w1 = log_write (LogEntry Info (Some (sloId s)) None ''Aggregating SLO metrics'') w
      in case aggregation_window endTime s of
           None \<Rightarrow> (w1, None)
         | Some (startTime, endTime') \<Rightarrow>
             (case aggregate E s startTime endTime' w1 of
                (w2, Some e) \<Rightarrow> (w2, Some e)
              | (w2, None) \<Rightarrow> update_watermark E s endTime' w2))"

text \<open>The task queued for one SLO: the \<^verbatim>\<open>try\<close> block and its \<^verbatim>\<open>catch\<close>.\<close>

definition slo_task :: "env \<Rightarrow> time \<Rightarrow> slo \<Rightarrow> world \<Rightarrow> world" where
  "slo_task E endTime s w =
     (case try_block E endTime s w of
        (w', None) \<Rightarrow> w'
      | (w', Some e) \<Rightarrow>
          log_write (LogEntry Error (Some (sloId s)) (Some e) ''Failed to check SLO'') w')"

fun run_queue :: "env \<Rightarrow> time \<Rightarrow> slo list \<Rightarrow> world \<Rightarrow> world" where
  "run_queue E endTime [] w = w"
| "run_queue E endTime (s # ss) w = run_queue E endTime ss (slo_task E endTime s w)"

text \<open>
  \<^verbatim>\<open>execute\<close> at the clock value \<open>now\<close>. The two messages that print the number of
  SLOs are written without the number.
\<close>

definition execute :: "env \<Rightarrow> time \<Rightarrow> world \<Rightarrow> world" where
  "execute E now w =
     (let w1 = log_write (LogEntry Info None None ''Starting SLO checks...'') w;
          found = slos w1;
          w2 = log_write (LogEntry Info None None ''Found SLOs to check'') w1;
          endTime = setSeconds00 E now;
          w3 = run_queue E endTime found w2
      in log_write (LogEntry Info None None ''Finished SLO checks'') w3)"

section \<open>The status calculator\<close>

datatype status = healthy | at_risk | breached | degraded

record slo_status =
  achieved :: rat
  errorBudgetTotal :: rat
  errorBudgetUsed :: rat
  errorBudgetRemaining :: rat
  status :: status

text \<open>A division that raises on a zero divisor.\<close>

definition checked_div :: "rat \<Rightarrow> rat \<Rightarrow> exn + rat" where
  "checked_div x y = (if y = 0 then Inl (Exn ''division by zero'') else Inr (x / y))"

text \<open>
  Modelled from the spec: the status calculator of section 4.3, whose code is not among
  the sources. \<open>target\<close> is a fraction; \<open>achieved\<close> is reported in percent. With a
  denominator of zero the specification sets \<open>achieved\<close> to 100 and the status to
  healthy. Otherwise: healthy when the achieved fraction reaches the target, breached
  when no budget remains, at risk when at most a tenth of the budget remains, and the
  fourth state (degraded) in the remaining case.
\<close>

definition getStatus :: "rat \<Rightarrow> nat \<Rightarrow> nat \<Rightarrow> exn + slo_status" where
  "getStatus target numerator denominator =
     (let total = (1 - target) * of_nat denominator;
          used = of_nat denominator - of_nat numerator;
          remaining = total - used
      in if denominator = 0
         then Inr \<lparr> achieved = 100, errorBudgetTotal = total, errorBudgetUsed = used,
                    errorBudgetRemaining = remaining, status = healthy \<rparr>
         else (case checked_div (of_nat numerator) (of_nat denominator) of
                 Inl e \<Rightarrow> Inl e
               | Inr q \<Rightarrow>
                   Inr \<lparr> achieved = 100 * q, errorBudgetTotal = total, errorBudgetUsed = used,
                         errorBudgetRemaining = remaining,
                         status = (if q \<ge> target then healthy
                                   else if remaining \<le> 0 then breached
                                   else if remaining \<le> total / 10 then at_risk
                                   else degraded) \<rparr>))"

section \<open>Observations and examples\<close>

subsection \<open>Observations\<close>

text \<open>The requests a step has sent: what it appended to the request trace.\<close>

definition sent :: "world \<Rightarrow> world \<Rightarrow> call list" where
  "sent w w' = drop (length (calls w)) (calls w')"

text \<open>The log entries a step has written.\<close>

definition logged :: "world \<Rightarrow> world \<Rightarrow> log_entry list" where
  "logged w w' = drop (length (logs w)) (logs w')"

definition is_command :: "call \<Rightarrow> bool" where
  "is_command c = (case c of Command _ \<Rightarrow> True | _ \<Rightarrow> False)"

text \<open>The rows a step has appended to the aggregate table.\<close>

definition written :: "world \<Rightarrow> world \<Rightarrow> row list" where
  "written w w' = drop (length (slo_aggregates w)) (slo_aggregates w')"

text \<open>
  The events of table \<open>tbl\<close> that satisfy condition \<open>f\<close>, lie in \<open>[lo, hi)\<close> and fall
  into the minute that starts at \<open>m\<close>.
\<close>

definition minute_events :: "env \<Rightarrow> string \<Rightarrow> string \<Rightarrow> time \<Rightarrow> time \<Rightarrow> time \<Rightarrow> event list" where
  "minute_events E tbl f lo hi m =
     filter (\<lambda>e. holds E f e \<and> lo \<le> Timestamp e \<and> Timestamp e < hi \<and>
                 toStartOfMinute (Timestamp e) = m) (events E tbl)"

text \<open>
  The rows as the specification words them, for comparison with \<open>select_rows\<close>: one row
  for every elapsed minute of \<open>[startTime, endTime)\<close>, holding the number of events of
  that minute that satisfy the filter and the good condition, and the number that satisfy
  the filter.
\<close>

definition elapsed_minutes :: "time \<Rightarrow> time \<Rightarrow> time list" where
  "elapsed_minutes startTime endTime =
     map (\<lambda>k. startTime + 60000 * int k) [0 ..< nat ((endTime - startTime) div 60000)]"

definition claimed_rows :: "env \<Rightarrow> slo \<Rightarrow> time \<Rightarrow> time \<Rightarrow> row list" where
  "claimed_rows E s startTime endTime =
     map (\<lambda>m. \<lparr> slo_id = sloId s, timestamp = m,
                 numerator_count = length (filter (holds E (interpolate (goodCondition s)))
                    (minute_events E (sourceTable s) (interpolate (filter_str s)) startTime endTime m)),
                 denominator_count = length
                    (minute_events E (sourceTable s) (interpolate (filter_str s)) startTime endTime m) \<rparr>)
       (elapsed_minutes startTime endTime)"

text \<open>A world with nothing in it, to read off what a task adds.\<close>

definition empty_world :: world where
  "empty_world = \<lparr> slo_aggregates = [], slos = [], calls = [], logs = [] \<rparr>"

definition log_context :: "log_entry \<Rightarrow> string option" where
  "log_context l = (case l of LogEntry _ c _ _ \<Rightarrow> c)"

definition log_level :: "log_entry \<Rightarrow> level" where
  "log_level l = (case l of LogEntry v _ _ _ \<Rightarrow> v)"

text \<open>
  What the world holds about the SLO \<open>sid\<close>: its rows, its watermark and the log
  entries written for it.
\<close>

definition view :: "string \<Rightarrow> world \<Rightarrow> row list \<times> time option option \<times> log_entry list" where
  "view sid w =
     (filter (\<lambda>r. slo_id r = sid) (slo_aggregates w),
      watermark sid (slos w),
      filter (\<lambda>l. log_context l = Some sid) (logs w))"

text \<open>What the task of an SLO does, read off from a run in the empty world.\<close>

definition task_error :: "env \<Rightarrow> time \<Rightarrow> slo \<Rightarrow> exn option" where
  "task_error E endTime s = snd (try_block E endTime s empty_world)"

definition task_rows :: "env \<Rightarrow> time \<Rightarrow> slo \<Rightarrow> row list" where
  "task_rows E endTime s = slo_aggregates (slo_task E endTime s empty_world)"

definition task_calls :: "env \<Rightarrow> time \<Rightarrow> slo \<Rightarrow> call list" where
  "task_calls E endTime s = calls (slo_task E endTime s empty_world)"

definition task_logs :: "env \<Rightarrow> time \<Rightarrow> slo \<Rightarrow> log_entry list" where
  "task_logs E endTime s = logs (slo_task E endTime s empty_world)"

definition advances :: "env \<Rightarrow> time \<Rightarrow> slo \<Rightarrow> bool" where
  "advances E endTime s = (aggregation_window endTime s \<noteq> None \<and> task_error E endTime s = None)"

text \<open>A sequence of ticks, each with its environment and its clock value.\<close>

fun ticks :: "(env \<times> time) list \<Rightarrow> world \<Rightarrow> world" where
  "ticks [] w = w"
| "ticks ((E, now) # ts) w = ticks ts (execute E now w)"

text \<open>Order of watermarks: an unset watermark is below every other.\<close>

fun wm_le :: "time option \<Rightarrow> time option \<Rightarrow> bool" where
  "wm_le None y = True"
| "wm_le (Some a) None = False"
| "wm_le (Some a) (Some b) = (a \<le> b)"

text \<open>The watermark lies strictly before \<open>t\<close>, or is unset.\<close>

fun before :: "time option \<Rightarrow> time \<Rightarrow> bool" where
  "before None t = True"
| "before (Some a) t = (a < t)"

definition before_opt :: "time option option \<Rightarrow> time \<Rightarrow> bool" where
  "before_opt old t = (case old of None \<Rightarrow> False | Some a \<Rightarrow> before a t)"

definition is_warning :: "log_entry \<Rightarrow> bool" where
  "is_warning l = (log_level l = Warn)"

subsection \<open>Examples\<close>

text \<open>An SLO in builder mode, one in raw SQL mode, and a world that holds both.\<close>

definition slo_b :: slo where
  "slo_b = \<lparr> sloId = ''b'', lastAggregatedAt = None,
             filter_str = Some ''ServiceName = api'', goodCondition = Some ''SeverityNumber < 17'',
             numeratorQuery = None, denominatorQuery = None, sourceTable = ''otel_logs'' \<rparr>"

definition slo_r :: slo where
  "slo_r = \<lparr> sloId = ''r'', lastAggregatedAt = None,
             filter_str = None, goodCondition = None,
             numeratorQuery = Some ''num'', denominatorQuery = Some ''den'',
             sourceTable = ''otel_logs'' \<rparr>"

definition world0 :: world where
  "world0 = \<lparr> slo_aggregates = [], slos = [slo_b, slo_r], calls = [], logs = [] \<rparr>"

text \<open>
  An environment where every request succeeds: the process runs in UTC; one table with
  three events of the service, two of them good; no condition text has a top level
  \<^verbatim>\<open>OR\<close>; \<^verbatim>\<open>injectTimeFilter\<close> keeps the query text; the count queries answer
  2 and 3.
\<close>

definition env_ok :: env where
  "env_ok = \<lparr>
     localTZA_utc = (\<lambda>t. 0),
     localTZA_local = (\<lambda>t. 0),
     events = (\<lambda>t. if t = ''otel_logs''
                    then [\<lparr> Timestamp = 30000, ServiceName = ''api'', SeverityNumber = 9 \<rparr>,
                          \<lparr> Timestamp = 40000, ServiceName = ''api'', SeverityNumber = 17 \<rparr>,
                          \<lparr> Timestamp = 130000, ServiceName = ''api'', SeverityNumber = 9 \<rparr>,
                          \<lparr> Timestamp = 50000, ServiceName = ''web'', SeverityNumber = 9 \<rparr>]
                    else []),
     holds = (\<lambda>c e. if c = ''ServiceName = api'' then ServiceName e = ''api''
                     else if c = ''SeverityNumber < 17'' then SeverityNumber e < 17
                     else False),
     or_split = (\<lambda>c. ([], c)),
     command_error = (\<lambda>q. None),
     injectTimeFilter = (\<lambda>q a b. case q of None \<Rightarrow> Inl (Exn ''TypeError'') | Some x \<Rightarrow> Inr x),
     query = (\<lambda>q. if q = ''num'' then Inr [2] else if q = ''den'' then Inr [3] else Inr []),
     insert_error = (\<lambda>r. None),
     updateOne_error = (\<lambda>sid t. None) \<rparr>"

text \<open>The same environment with count queries that find nothing.\<close>

definition env_zero :: env where
  "env_zero = env_ok\<lparr> query := (\<lambda>q. if q = ''num'' then Inr [] else Inr [0]) \<rparr>"

text \<open>The builder mode SLO, last aggregated at time 0.\<close>

definition slo_b0 :: slo where
  "slo_b0 = slo_b\<lparr> lastAggregatedAt := Some 0 \<rparr>"

text \<open>An environment where ClickHouse rejects every grouped statement.\<close>

definition env_fail :: env where
  "env_fail = env_ok\<lparr> command_error := (\<lambda>q. Some (Exn ''timeout'')) \<rparr>"

text \<open>A world whose collection holds that SLO alone.\<close>

definition world_b0 :: world where
  "world_b0 = \<lparr> slo_aggregates = [], slos = [slo_b0], calls = [], logs = [] \<rparr>"

text \<open>
  An SLO with a filter and no good condition, a numerator query and no denominator
  query: neither mode is complete.
\<close>

definition slo_x :: slo where
  "slo_x = \<lparr> sloId = ''x'', lastAggregatedAt = None,
             filter_str = Some ''ServiceName = api'', goodCondition = None,
             numeratorQuery = Some ''num'', denominatorQuery = None,
             sourceTable = ''otel_logs'' \<rparr>"

definition world_x :: world where
  "world_x = \<lparr> slo_aggregates = [], slos = [slo_x, slo_r], calls = [], logs = [] \<rparr>"

text \<open>An environment where ClickHouse answers and the update of the document fails.\<close>

definition env_upd_fail :: env where
  "env_upd_fail = env_ok\<lparr> updateOne_error := (\<lambda>sid t. Some (Exn ''MongoNetworkError'')) \<rparr>"

text \<open>
  The builder mode SLO with a watermark that is not on a whole second, and a table whose
  one event lies shortly before that watermark.
\<close>

definition slo_ms :: slo where
  "slo_ms = slo_b\<lparr> lastAggregatedAt := Some 60500 \<rparr>"

definition env_ms :: env where
  "env_ms = env_ok\<lparr> events := (\<lambda>t. if t = ''otel_logs''
       then [\<lparr> Timestamp = 60200, ServiceName = ''api'', SeverityNumber = 9 \<rparr>] else []) \<rparr>"

text \<open>
  The builder mode SLO with a filter of two operands, last aggregated at 120000, and an
  environment that reads that filter.
\<close>

definition slo_or :: slo where
  "slo_or = slo_b\<lparr> lastAggregatedAt := Some 120000,
                     filter_str := Some ''ServiceName = web OR ServiceName = api'' \<rparr>"

definition env_or :: env where
  "env_or = env_ok\<lparr>
     holds := (\<lambda>c e. if c = ''ServiceName = web'' then ServiceName e = ''web''
                      else holds env_ok c e),
     or_split := (\<lambda>c. if c = ''ServiceName = web OR ServiceName = api''
                        then ([''ServiceName = web''], ''ServiceName = api'') else ([], c)) \<rparr>"

text \<open>
  A process in the zone America/New_York around the end of daylight saving time on
  2026-11-01: the offset is four hours before 06:00 UTC and five hours from then on; a
  local time before 02:00, also one of the repeated hour from 01:00 to 02:00, is read
  back with the offset of four hours.
\<close>

definition env_ny :: env where
  "env_ny = env_ok\<lparr>
     localTZA_utc := (\<lambda>t. if t < 1793512800000 then - 14400000 else - 18000000),
     localTZA_local := (\<lambda>l. if l < 1793498400000 then - 14400000 else - 18000000) \<rparr>"

text \<open>An SLO last aggregated at 05:59 UTC of that day.\<close>

definition slo_ny :: slo where
  "slo_ny = slo_b\<lparr> lastAggregatedAt := Some 1793512740000 \<rparr>"

section \<open>Properties\<close>

subsection \<open>Basic facts\<close>

lemma log_write_fields [simp]:
  "slo_aggregates (log_write l w) = slo_aggregates w"
  "slos (log_write l w) = slos w"
  "calls (log_write l w) = calls w"
  "logs (log_write l w) = logs w @ [l]"
  by (simp_all add: log_write_def)

lemma send_fields [simp]:
  "slo_aggregates (send c w) = slo_aggregates w"
  "slos (send c w) = slos w"
  "calls (send c w) = calls w @ [c]"
  "logs (send c w) = logs w"
  by (simp_all add: send_def)

lemma window_None:
  "lastAggregatedAt s = None \<Longrightarrow> aggregation_window endTime s = Some (endTime - ms_1m, endTime)"
  by (simp add: aggregation_window_def ms_1m_def ms_1h_def)

lemma window_current:
  "lastAggregatedAt s = Some t \<Longrightarrow> endTime \<le> t \<Longrightarrow> aggregation_window endTime s = None"
  by (simp add: aggregation_window_def)

lemma window_capped:
  "lastAggregatedAt s = Some t \<Longrightarrow> t < endTime \<Longrightarrow> ms_1h < endTime - t \<Longrightarrow>
   aggregation_window endTime s = Some (endTime - ms_1h, endTime)"
  by (simp add: aggregation_window_def)

lemma window_plain:
  "lastAggregatedAt s = Some t \<Longrightarrow> t < endTime \<Longrightarrow> endTime - t \<le> ms_1h \<Longrightarrow>
   aggregation_window endTime s = Some (t, endTime)"
  by (simp add: aggregation_window_def)

lemma task_skip:
  "aggregation_window endTime s = None \<Longrightarrow>
   slo_task E endTime s w =
     log_write (LogEntry Info (Some (sloId s)) None ''Aggregating SLO metrics'') w"
  by (simp add: slo_task_def try_block_def)

subsection \<open>The two branches\<close>

lemma window_end:
  "aggregation_window endTime s = Some (a, b) \<Longrightarrow> b = endTime \<and> a < b"
  by (auto simp: aggregation_window_def ms_1h_def Let_def split: if_splits option.splits)

lemma aggQuery_queries [simp]:
  "aggQuery (s\<lparr>numeratorQuery := nq\<rparr>) a b = aggQuery s a b"
  "aggQuery (s\<lparr>denominatorQuery := dq\<rparr>) a b = aggQuery s a b"
  by (simp_all add: aggQuery_def)

lemma builder_mode_queries:
  "builder_mode E (s\<lparr>numeratorQuery := nq, denominatorQuery := dq\<rparr>) a b w = builder_mode E s a b w"
  by (simp add: builder_mode_def)

lemma builder_mode_sent:
  "sent w (fst (builder_mode E s a b w)) = [Command (aggQuery s a b)]"
  by (simp add: builder_mode_def sent_def Let_def split: option.splits)

lemma builder_mode_ok:
  "command_error E (aggQuery s a b) = None \<Longrightarrow>
   builder_mode E s a b w =
     ((send (Command (aggQuery s a b)) w)
        \<lparr>slo_aggregates := slo_aggregates w @ select_rows E (aggQuery s a b)\<rparr>, None)"
  by (simp add: builder_mode_def Let_def)

lemma raw_sql_mode_ok:
  assumes "injectTimeFilter E (numeratorQuery s) a b = Inr nq"
    and "injectTimeFilter E (denominatorQuery s) a b = Inr dq"
    and "query E nq = Inr nd" and "query E dq = Inr dd"
  shows "raw_sql_mode E s a b w =
     (let w1 = send (Query dq) (send (Query nq) w);
          r = \<lparr> slo_id = sloId s, timestamp = a,
                numerator_count = first_count nd, denominator_count = first_count dd \<rparr>
      in if first_count dd > 0 \<or> first_count nd > 0
         then (case insert_error E r of
                 Some e \<Rightarrow> (send (Insert r) w1, Some e)
               | None \<Rightarrow> ((send (Insert r) w1)\<lparr>slo_aggregates := slo_aggregates w @ [r]\<rparr>, None))
         else (w1, None))"
  using assms by (simp add: raw_sql_mode_def Let_def split: option.splits)

lemma raw_sql_mode_no_command:
  "filter is_command (sent w (fst (raw_sql_mode E s a b w))) = []"
  by (simp add: raw_sql_mode_def sent_def is_command_def Let_def
      split: sum.splits option.splits)

lemma watermark_updateOne_same:
  "watermark sid ds \<noteq> None \<Longrightarrow> watermark sid (updateOne sid t ds) = Some (Some t)"
  by (induction ds) auto

lemma watermark_updateOne_other:
  "sid \<noteq> sid' \<Longrightarrow> watermark sid (updateOne sid' t ds) = watermark sid ds"
  by (induction ds) auto

lemma watermark_member:
  "s \<in> set ds \<Longrightarrow> watermark (sloId s) ds \<noteq> None"
  by (induction ds) auto

text \<open>The task when the branch returns without an error and the update goes through.\<close>

lemma task_success:
  assumes "aggregation_window endTime s = Some (a, b)"
    and "aggregate E s a b (log_write (LogEntry Info (Some (sloId s)) None ''Aggregating SLO metrics'') w)
           = (w2, None)"
    and "updateOne_error E (sloId s) endTime = None"
  shows "slo_task E endTime s w =
           (send (UpdateOne (sloId s) endTime) w2)\<lparr>slos := updateOne (sloId s) endTime (slos w2)\<rparr>"
  using assms window_end [OF assms(1)]
  by (simp add: slo_task_def try_block_def update_watermark_def Let_def)

lemma bucket_append:
  "bucket (rs @ rs') sid m =
     (fst (bucket rs sid m) + fst (bucket rs' sid m), snd (bucket rs sid m) + snd (bucket rs' sid m))"
  by (simp add: bucket_def Let_def)

lemma bucket_single:
  "bucket [r] sid m =
     (if slo_id r = sid \<and> timestamp r = m then (numerator_count r, denominator_count r) else (0, 0))"
  by (simp add: bucket_def Let_def)

lemma bucket_Nil [simp]: "bucket [] sid m = (0, 0)"
  by (simp add: bucket_def)

text \<open>The builder branch when the statement goes through and the update does too.\<close>

lemma builder_task_success:
  assumes "truthy (filter_str s) \<and> truthy (goodCondition s)"
    and "aggregation_window endTime s = Some (a, b)"
    and "command_error E (aggQuery s a b) = None"
    and "updateOne_error E (sloId s) endTime = None"
  shows "slo_task E endTime s w =
     w\<lparr> slo_aggregates := slo_aggregates w @ select_rows E (aggQuery s a b),
        slos := updateOne (sloId s) endTime (slos w),
        calls := calls w @ [Command (aggQuery s a b), UpdateOne (sloId s) endTime],
        logs := logs w @ [LogEntry Info (Some (sloId s)) None ''Aggregating SLO metrics''] \<rparr>"
proof -
  let ?w1 = "log_write (LogEntry Info (Some (sloId s)) None ''Aggregating SLO metrics'') w"
  have "aggregate E s a b ?w1 = builder_mode E s a b ?w1"
    using assms(1) by (simp add: aggregate_def)
  also note builder_mode_ok [OF assms(3)]
  finally show ?thesis
    by (simp add: task_success [OF assms(2) _ assms(4)] send_def log_write_def)
qed

subsection \<open>The aggregation window\<close>

text \<open>
  C2. The window of an SLO at a tick that ends at \<open>endTime\<close>: it starts at
  \<open>lastAggregatedAt\<close> when that is set and one minute before \<open>endTime\<close> otherwise. When
  the start is not before \<open>endTime\<close> the task returns at once: it sends no request,
  writes no row and leaves every document as it was. When the start is more than one hour
  before \<open>endTime\<close> the window starts one hour before \<open>endTime\<close>.
\<close>

theorem window_rule:
  "(lastAggregatedAt s = None \<longrightarrow>
      aggregation_window endTime s = Some (endTime - 60000, endTime)) \<and>
   (lastAggregatedAt s = Some t \<and> endTime \<le> t \<longrightarrow>
      aggregation_window endTime s = None \<and>
      sent w (slo_task E endTime s w) = [] \<and>
      slo_aggregates (slo_task E endTime s w) = slo_aggregates w \<and>
      slos (slo_task E endTime s w) = slos w) \<and>
   (lastAggregatedAt s = Some t \<and> t < endTime \<and> endTime - t \<le> 3600000 \<longrightarrow>
      aggregation_window endTime s = Some (t, endTime)) \<and>
   (lastAggregatedAt s = Some t \<and> t < endTime \<and> 3600000 < endTime - t \<longrightarrow>
      aggregation_window endTime s = Some (endTime - 3600000, endTime))"
proof (intro conjI impI)
  assume "lastAggregatedAt s = None"
  then show "aggregation_window endTime s = Some (endTime - 60000, endTime)"
    using window_None [of s endTime] by (simp add: ms_1m_def)
next
  assume a: "lastAggregatedAt s = Some t \<and> endTime \<le> t"
  then show none: "aggregation_window endTime s = None"
    by (simp add: window_current)
  show "sent w (slo_task E endTime s w) = []"
    by (simp add: task_skip [OF none] sent_def)
  show "slo_aggregates (slo_task E endTime s w) = slo_aggregates w"
    by (simp add: task_skip [OF none])
  show "slos (slo_task E endTime s w) = slos w"
    by (simp add: task_skip [OF none])
next
  assume "lastAggregatedAt s = Some t \<and> t < endTime \<and> endTime - t \<le> 3600000"
  then show "aggregation_window endTime s = Some (t, endTime)"
    using window_plain [of s t endTime] by (simp add: ms_1h_def)
next
  assume "lastAggregatedAt s = Some t \<and> t < endTime \<and> 3600000 < endTime - t"
  then show "aggregation_window endTime s = Some (endTime - 3600000, endTime)"
    using window_capped [of s t endTime] by (simp add: ms_1h_def)
qed

theorem window_rule_witness:
  "lastAggregatedAt slo_b = None \<and>
   aggregation_window 120000 slo_b = Some (60000, 120000) \<and>
   lastAggregatedAt (slo_b\<lparr>lastAggregatedAt := Some 120000\<rparr>) = Some 120000 \<and>
   (120000 :: int) \<le> 120000 \<and>
   aggregation_window 120000 (slo_b\<lparr>lastAggregatedAt := Some 120000\<rparr>) = None \<and>
   sent world0 (slo_task env_ok 120000 (slo_b\<lparr>lastAggregatedAt := Some 120000\<rparr>) world0) = [] \<and>
   slo_aggregates (slo_task env_ok 120000 (slo_b\<lparr>lastAggregatedAt := Some 120000\<rparr>) world0)
     = slo_aggregates world0 \<and>
   slos (slo_task env_ok 120000 (slo_b\<lparr>lastAggregatedAt := Some 120000\<rparr>) world0) = slos world0 \<and>
   aggregation_window 120000 (slo_b\<lparr>lastAggregatedAt := Some 60000\<rparr>) = Some (60000, 120000) \<and>
   (3600000 :: int) < 18000000 - 0 \<and>
   aggregation_window 18000000 (slo_b\<lparr>lastAggregatedAt := Some 0\<rparr>) = Some (14400000, 18000000)"
  using window_rule [where s = slo_b and endTime = 120000]
    window_rule [where s = "slo_b\<lparr>lastAggregatedAt := Some 120000\<rparr>" and t = 120000
      and endTime = 120000 and w = world0 and E = env_ok]
    window_rule [where s = "slo_b\<lparr>lastAggregatedAt := Some 60000\<rparr>" and t = 60000
      and endTime = 120000]
    window_rule [where s = "slo_b\<lparr>lastAggregatedAt := Some 0\<rparr>" and t = 0
      and endTime = 18000000]
  by (simp add: slo_b_def)

subsection \<open>Mode selection\<close>

text \<open>
  C10. The branch is chosen by \<^verbatim>\<open>filter\<close> and \<^verbatim>\<open>goodCondition\<close> alone (populated:
  present and not the empty string). With both populated the task takes the builder
  branch and sends the grouped statement, whatever \<^verbatim>\<open>numeratorQuery\<close> and
  \<^verbatim>\<open>denominatorQuery\<close> hold. With either missing it takes the raw SQL branch, which
  never sends the grouped statement.
\<close>

theorem mode_selection:
  "(truthy (filter_str s) \<and> truthy (goodCondition s) \<longrightarrow>
      aggregate E (s\<lparr>numeratorQuery := nq, denominatorQuery := dq\<rparr>) a b w = builder_mode E s a b w \<and>
      aggregate E s a b w = builder_mode E s a b w \<and>
      sent w (fst (aggregate E s a b w)) = [Command (aggQuery s a b)]) \<and>
   (\<not> (truthy (filter_str s) \<and> truthy (goodCondition s)) \<longrightarrow>
      aggregate E s a b w = raw_sql_mode E s a b w \<and>
      filter is_command (sent w (fst (aggregate E s a b w))) = [])"
proof (intro conjI impI)
  assume b: "truthy (filter_str s) \<and> truthy (goodCondition s)"
  then show "aggregate E (s\<lparr>numeratorQuery := nq, denominatorQuery := dq\<rparr>) a b w = builder_mode E s a b w"
    by (simp add: aggregate_def builder_mode_queries)
  from b show eq: "aggregate E s a b w = builder_mode E s a b w"
    by (simp add: aggregate_def)
  show "sent w (fst (aggregate E s a b w)) = [Command (aggQuery s a b)]"
    by (simp only: eq builder_mode_sent)
next
  assume r: "\<not> (truthy (filter_str s) \<and> truthy (goodCondition s))"
  then show eq: "aggregate E s a b w = raw_sql_mode E s a b w"
    by (auto simp: aggregate_def)
  show "filter is_command (sent w (fst (aggregate E s a b w))) = []"
    by (simp only: eq raw_sql_mode_no_command)
qed

theorem mode_selection_witness:
  "truthy (filter_str slo_b) \<and> truthy (goodCondition slo_b) \<and>
   aggregate env_ok (slo_b\<lparr>numeratorQuery := Some ''num'', denominatorQuery := Some ''den''\<rparr>)
      60000 120000 world0 = builder_mode env_ok slo_b 60000 120000 world0 \<and>
   sent world0 (fst (aggregate env_ok slo_b 60000 120000 world0))
      = [Command (aggQuery slo_b 60000 120000)] \<and>
   \<not> (truthy (filter_str slo_r) \<and> truthy (goodCondition slo_r)) \<and>
   aggregate env_ok slo_r 60000 120000 world0 = raw_sql_mode env_ok slo_r 60000 120000 world0 \<and>
   filter is_command (sent world0 (fst (aggregate env_ok slo_r 60000 120000 world0))) = []"
proof -
  have b: "truthy (filter_str slo_b) \<and> truthy (goodCondition slo_b)"
    by (simp add: slo_b_def truthy_def)
  have r: "\<not> (truthy (filter_str slo_r) \<and> truthy (goodCondition slo_r))"
    by (simp add: slo_r_def truthy_def)
  show ?thesis
    using b r mode_selection [where s = slo_b and E = env_ok and nq = "Some ''num''" and dq = "Some ''den''"
        and a = 60000 and b = 120000 and w = world0]
      mode_selection [where s = slo_r and E = env_ok and nq = None and dq = None
        and a = 60000 and b = 120000 and w = world0]
    by (simp add: builder_mode_sent raw_sql_mode_no_command)
qed

subsection \<open>The raw SQL branch\<close>

text \<open>
  C9. In raw SQL mode, when the numerator and the denominator of the window are both
  zero, no row is inserted: the aggregate table is as it was and no insert is sent. The
  task still updates the document, and \<open>lastAggregatedAt\<close> becomes \<open>endTime\<close>.
\<close>

theorem raw_sql_zero_counts:
  assumes "\<not> (truthy (filter_str s) \<and> truthy (goodCondition s))"
    and "aggregation_window endTime s = Some (a, b)"
    and "injectTimeFilter E (numeratorQuery s) a b = Inr nq"
    and "injectTimeFilter E (denominatorQuery s) a b = Inr dq"
    and "query E nq = Inr nd"
    and "query E dq = Inr dd"
    and "first_count nd = 0"
    and "first_count dd = 0"
    and "updateOne_error E (sloId s) endTime = None"
    and "s \<in> set (slos w)"
  shows "slo_aggregates (slo_task E endTime s w) = slo_aggregates w \<and>
         sent w (slo_task E endTime s w) = [Query nq, Query dq, UpdateOne (sloId s) endTime] \<and>
         watermark (sloId s) (slos (slo_task E endTime s w)) = Some (Some endTime)"
proof -
  let ?w1 = "log_write (LogEntry Info (Some (sloId s)) None ''Aggregating SLO metrics'') w"
  let ?w2 = "send (Query dq) (send (Query nq) ?w1)"
  have "aggregate E s a b ?w1 = raw_sql_mode E s a b ?w1"
    using assms(1) by (auto simp: aggregate_def)
  also have "\<dots> = (?w2, None)"
    using assms(7,8) by (simp add: raw_sql_mode_ok [OF assms(3-6)])
  finally have t: "slo_task E endTime s w =
      (send (UpdateOne (sloId s) endTime) ?w2)\<lparr>slos := updateOne (sloId s) endTime (slos ?w2)\<rparr>"
    by (rule task_success [OF assms(2) _ assms(9)])
  have "watermark (sloId s) (slos w) \<noteq> None"
    using assms(10) by (rule watermark_member)
  then show ?thesis
    by (simp add: t sent_def watermark_updateOne_same)
qed

theorem raw_sql_zero_counts_witness:
  "\<not> (truthy (filter_str slo_r) \<and> truthy (goodCondition slo_r)) \<and>
   aggregation_window 120000 slo_r = Some (60000, 120000) \<and>
   injectTimeFilter env_zero (numeratorQuery slo_r) 60000 120000 = Inr ''num'' \<and>
   injectTimeFilter env_zero (denominatorQuery slo_r) 60000 120000 = Inr ''den'' \<and>
   query env_zero ''num'' = Inr [] \<and> query env_zero ''den'' = Inr [0] \<and>
   first_count [] = 0 \<and> first_count [0] = 0 \<and>
   updateOne_error env_zero (sloId slo_r) 120000 = None \<and>
   slo_r \<in> set (slos world0) \<and>
   slo_aggregates (slo_task env_zero 120000 slo_r world0) = slo_aggregates world0 \<and>
   sent world0 (slo_task env_zero 120000 slo_r world0)
     = [Query ''num'', Query ''den'', UpdateOne (sloId slo_r) 120000] \<and>
   watermark (sloId slo_r) (slos (slo_task env_zero 120000 slo_r world0)) = Some (Some 120000)"
proof -
  have h1: "\<not> (truthy (filter_str slo_r) \<and> truthy (goodCondition slo_r))"
    by (simp add: slo_r_def truthy_def)
  have h2: "aggregation_window 120000 slo_r = Some (60000, 120000)"
    by (simp add: aggregation_window_def slo_r_def ms_1m_def ms_1h_def)
  have h3: "injectTimeFilter env_zero (numeratorQuery slo_r) 60000 120000 = Inr ''num''"
    by (simp add: env_zero_def env_ok_def slo_r_def)
  have h4: "injectTimeFilter env_zero (denominatorQuery slo_r) 60000 120000 = Inr ''den''"
    by (simp add: env_zero_def env_ok_def slo_r_def)
  have h5: "query env_zero ''num'' = Inr []" and h6: "query env_zero ''den'' = Inr [0]"
    by (simp_all add: env_zero_def)
  have h7: "first_count [] = 0" and h8: "first_count [0] = 0"
    by (simp_all add: first_count_def)
  have h9: "updateOne_error env_zero (sloId slo_r) 120000 = None"
    by (simp add: env_zero_def env_ok_def)
  have h10: "slo_r \<in> set (slos world0)"
    by (simp add: world0_def)
  from raw_sql_zero_counts [OF h1 h2 h3 h4 h5 h6 h7 h8 h9 h10] h1 h2 h3 h4 h5 h6 h7 h8 h9 h10
  show ?thesis by simp
qed

text \<open>
  C5. In raw SQL mode the two count queries the task sends are the user's numerator and
  denominator queries as \<^verbatim>\<open>injectTimeFilter\<close> returns them for the bounds of the
  window. When both answer, the insert (if any) and the update go through, the pair of
  counts is added to the bucket at \<open>startTime\<close>, no other bucket changes, and
  \<open>lastAggregatedAt\<close> becomes \<open>endTime\<close>. A builder mode task that goes through
  leaves \<open>lastAggregatedAt\<close> at \<open>endTime\<close> as well.
\<close>

theorem raw_sql_success:
  assumes "\<not> (truthy (filter_str s) \<and> truthy (goodCondition s))"
    and "aggregation_window endTime s = Some (a, b)"
    and "injectTimeFilter E (numeratorQuery s) a b = Inr nq"
    and "injectTimeFilter E (denominatorQuery s) a b = Inr dq"
    and "query E nq = Inr nd"
    and "query E dq = Inr dd"
    and "insert_error E \<lparr> slo_id = sloId s, timestamp = a, numerator_count = first_count nd,
                           denominator_count = first_count dd \<rparr> = None"
    and "updateOne_error E (sloId s) endTime = None"
    and "s \<in> set (slos w)"
  shows "b = endTime \<and>
     take 2 (sent w (slo_task E endTime s w)) = [Query nq, Query dq] \<and>
     bucket (slo_aggregates (slo_task E endTime s w)) sid m =
       (if sid = sloId s \<and> m = a
        then (fst (bucket (slo_aggregates w) sid m) + first_count nd,
              snd (bucket (slo_aggregates w) sid m) + first_count dd)
        else bucket (slo_aggregates w) sid m) \<and>
     watermark (sloId s) (slos (slo_task E endTime s w)) = Some (Some endTime) \<and>
     (truthy (filter_str s') \<and> truthy (goodCondition s') \<and>
      aggregation_window endTime s' = Some (a', b') \<and>
      command_error E (aggQuery s' a' b') = None \<and>
      updateOne_error E (sloId s') endTime = None \<and> s' \<in> set (slos w) \<longrightarrow>
        watermark (sloId s') (slos (slo_task E endTime s' w)) = Some (Some endTime))"
proof -
  let ?w1 = "log_write (LogEntry Info (Some (sloId s)) None ''Aggregating SLO metrics'') w"
  let ?w2 = "send (Query dq) (send (Query nq) ?w1)"
  let ?r = "\<lparr> slo_id = sloId s, timestamp = a, numerator_count = first_count nd,
              denominator_count = first_count dd \<rparr>"
  let ?w3 = "if first_count dd > 0 \<or> first_count nd > 0
             then (send (Insert ?r) ?w2)\<lparr>slo_aggregates := slo_aggregates w @ [?r]\<rparr> else ?w2"
  have "aggregate E s a b ?w1 = raw_sql_mode E s a b ?w1"
    using assms(1) by (auto simp: aggregate_def)
  also have "\<dots> = (?w3, None)"
    using assms(7) by (simp add: raw_sql_mode_ok [OF assms(3-6)] Let_def)
  finally have t: "slo_task E endTime s w =
      (send (UpdateOne (sloId s) endTime) ?w3)\<lparr>slos := updateOne (sloId s) endTime (slos ?w3)\<rparr>"
    by (rule task_success [OF assms(2) _ assms(8)])
  have c1: "b = endTime"
    using window_end [OF assms(2)] by simp
  have c2: "take 2 (sent w (slo_task E endTime s w)) = [Query nq, Query dq]"
    by (simp add: t sent_def)
  have c3: "bucket (slo_aggregates (slo_task E endTime s w)) sid m =
       (if sid = sloId s \<and> m = a
        then (fst (bucket (slo_aggregates w) sid m) + first_count nd,
              snd (bucket (slo_aggregates w) sid m) + first_count dd)
        else bucket (slo_aggregates w) sid m)"
    by (auto simp: t bucket_append bucket_single)
  have "watermark (sloId s) (slos w) \<noteq> None"
    using assms(9) by (rule watermark_member)
  then have c4: "watermark (sloId s) (slos (slo_task E endTime s w)) = Some (Some endTime)"
    by (simp add: t watermark_updateOne_same)
  have c5: "watermark (sloId s') (slos (slo_task E endTime s' w)) = Some (Some endTime)"
    if h: "truthy (filter_str s') \<and> truthy (goodCondition s') \<and>
      aggregation_window endTime s' = Some (a', b') \<and>
      command_error E (aggQuery s' a' b') = None \<and>
      updateOne_error E (sloId s') endTime = None \<and> s' \<in> set (slos w)"
  proof -
    have "watermark (sloId s') (slos w) \<noteq> None"
      using h by (simp add: watermark_member)
    then show ?thesis
      using h by (simp add: builder_task_success [of s' endTime a' b' E w] watermark_updateOne_same)
  qed
  from c1 c2 c3 c4 c5 show ?thesis by blast
qed

theorem raw_sql_success_witness:
  "\<not> (truthy (filter_str slo_r) \<and> truthy (goodCondition slo_r)) \<and>
   aggregation_window 120000 slo_r = Some (60000, 120000) \<and>
   injectTimeFilter env_ok (numeratorQuery slo_r) 60000 120000 = Inr ''num'' \<and>
   injectTimeFilter env_ok (denominatorQuery slo_r) 60000 120000 = Inr ''den'' \<and>
   query env_ok ''num'' = Inr [2] \<and> query env_ok ''den'' = Inr [3] \<and>
   insert_error env_ok \<lparr> slo_id = sloId slo_r, timestamp = 60000, numerator_count = first_count [2],
                           denominator_count = first_count [3] \<rparr> = None \<and>
   updateOne_error env_ok (sloId slo_r) 120000 = None \<and>
   slo_r \<in> set (slos world0) \<and>
   take 2 (sent world0 (slo_task env_ok 120000 slo_r world0)) = [Query ''num'', Query ''den''] \<and>
   bucket (slo_aggregates (slo_task env_ok 120000 slo_r world0)) ''r'' 60000 = (2, 3) \<and>
   bucket (slo_aggregates (slo_task env_ok 120000 slo_r world0)) ''r'' 0 = (0, 0) \<and>
   watermark (sloId slo_r) (slos (slo_task env_ok 120000 slo_r world0)) = Some (Some 120000) \<and>
   truthy (filter_str slo_b) \<and> truthy (goodCondition slo_b) \<and>
   aggregation_window 120000 slo_b = Some (60000, 120000) \<and>
   command_error env_ok (aggQuery slo_b 60000 120000) = None \<and>
   slo_b \<in> set (slos world0) \<and>
   watermark (sloId slo_b) (slos (slo_task env_ok 120000 slo_b world0)) = Some (Some 120000)"
proof -
  have h1: "\<not> (truthy (filter_str slo_r) \<and> truthy (goodCondition slo_r))"
    by (simp add: slo_r_def truthy_def)
  have h2: "aggregation_window 120000 slo_r = Some (60000, 120000)"
    by (simp add: aggregation_window_def slo_r_def ms_1m_def ms_1h_def)
  have h3: "injectTimeFilter env_ok (numeratorQuery slo_r) 60000 120000 = Inr ''num''"
    by (simp add: env_ok_def slo_r_def)
  have h4: "injectTimeFilter env_ok (denominatorQuery slo_r) 60000 120000 = Inr ''den''"
    by (simp add: env_ok_def slo_r_def)
  have h5: "query env_ok ''num'' = Inr [2]" and h6: "query env_ok ''den'' = Inr [3]"
    by (simp_all add: env_ok_def)
  have h7: "insert_error env_ok \<lparr> slo_id = sloId slo_r, timestamp = 60000,
      numerator_count = first_count [2], denominator_count = first_count [3] \<rparr> = None"
    by (simp add: env_ok_def)
  have h8: "updateOne_error env_ok (sloId slo_r) 120000 = None"
    by (simp add: env_ok_def)
  have h9: "slo_r \<in> set (slos world0)"
    by (simp add: world0_def)
  have g1: "truthy (filter_str slo_b) \<and> truthy (goodCondition slo_b)"
    by (simp add: slo_b_def truthy_def)
  have g2: "aggregation_window 120000 slo_b = Some (60000, 120000)"
    by (simp add: aggregation_window_def slo_b_def ms_1m_def ms_1h_def)
  have g3: "command_error env_ok (aggQuery slo_b 60000 120000) = None"
    by (simp add: env_ok_def)
  have g4: "slo_b \<in> set (slos world0)"
    by (simp add: world0_def)
  have g5: "updateOne_error env_ok (sloId slo_b) 120000 = None"
    by (simp add: env_ok_def)
  have e: "slo_aggregates world0 = []" "first_count [2] = 2" "first_count [3] = 3"
    "sloId slo_r = ''r''"
    by (simp_all add: world0_def first_count_def slo_r_def)
  note th = raw_sql_success [OF h1 h2 h3 h4 h5 h6 h7 h8 h9, where s' = slo_b and a' = 60000
      and b' = 120000]
  have k1: "take 2 (sent world0 (slo_task env_ok 120000 slo_r world0)) = [Query ''num'', Query ''den'']"
    using th by simp
  have k2: "bucket (slo_aggregates (slo_task env_ok 120000 slo_r world0)) ''r'' 60000 = (2, 3)"
    using th [where sid = "''r''" and m = 60000] by (simp add: e)
  have k3: "bucket (slo_aggregates (slo_task env_ok 120000 slo_r world0)) ''r'' 0 = (0, 0)"
    using th [where sid = "''r''" and m = 0] by (simp add: e)
  have k4: "watermark (sloId slo_r) (slos (slo_task env_ok 120000 slo_r world0)) = Some (Some 120000)"
    using th by simp
  have k5: "watermark (sloId slo_b) (slos (slo_task env_ok 120000 slo_b world0)) = Some (Some 120000)"
    using th g1 g2 g3 g4 g5 by simp
  show ?thesis
    using h1 h2 h3 h4 h5 h6 h7 h8 h9 g1 g2 g3 g4 k1 k2 k3 k4 k5 by simp
qed

subsection \<open>The builder branch\<close>

lemma timestamp_group_row [simp]: "timestamp (group_row E q m) = m"
  by (simp add: group_row_def Let_def)

lemma slo_id_group_row [simp]: "slo_id (group_row E q m) = q_slo_id q"
  by (simp add: group_row_def Let_def)

lemma timestamps_select_rows:
  "map timestamp (select_rows E q) =
     remdups (map (\<lambda>e. toStartOfMinute (Timestamp e)) (in_scope E q))"
  by (simp add: select_rows_def o_def)

text \<open>A filter without a top level \<^verbatim>\<open>OR\<close>: the bounds go with the whole filter.\<close>

lemma in_scope_plain:
  assumes "or_split E (q_filter q) = ([], q_filter q)"
  shows "in_scope E q =
     filter (\<lambda>e. holds E (q_filter q) e \<and> q_from q \<le> Timestamp e \<and> Timestamp e < q_to q)
       (events E (q_sourceTable q))"
  by (simp add: in_scope_def where_clause_def assms cong: filter_cong)

lemma group_events:
  assumes "or_split E (q_filter q) = ([], q_filter q)"
  shows "filter (\<lambda>e. toStartOfMinute (Timestamp e) = m) (in_scope E q) =
     minute_events E (q_sourceTable q) (q_filter q) (q_from q) (q_to q) m"
  by (simp add: in_scope_plain [OF assms] minute_events_def conj_ac)

lemma group_row_counts:
  assumes "or_split E (q_filter q) = ([], q_filter q)"
  shows "group_row E q m =
     \<lparr> slo_id = q_slo_id q, timestamp = m,
       numerator_count = length (filter (holds E (q_goodCondition q))
          (minute_events E (q_sourceTable q) (q_filter q) (q_from q) (q_to q) m)),
       denominator_count = length
          (minute_events E (q_sourceTable q) (q_filter q) (q_from q) (q_to q) m) \<rparr>"
  by (simp add: group_row_def Let_def group_events [OF assms])

lemma minute_has_row:
  assumes "or_split E (q_filter q) = ([], q_filter q)"
  shows "(m \<in> set (map timestamp (select_rows E q))) =
     (minute_events E (q_sourceTable q) (q_filter q) (q_from q) (q_to q) m \<noteq> [])"
proof -
  have "(m \<in> set (map timestamp (select_rows E q))) =
        (\<exists>e \<in> set (in_scope E q). toStartOfMinute (Timestamp e) = m)"
    by (auto simp: timestamps_select_rows)
  also have "\<dots> = (filter (\<lambda>e. toStartOfMinute (Timestamp e) = m) (in_scope E q) \<noteq> [])"
    by (simp add: filter_empty_conv)
  finally show ?thesis
    by (simp only: group_events [OF assms])
qed

lemma filter_eq_distinct:
  "distinct xs \<Longrightarrow> filter (\<lambda>x. x = m) xs = (if m \<in> set xs then [m] else [])"
  by (induction xs) auto

lemma bucket_select_rows:
  assumes "or_split E (q_filter q) = ([], q_filter q)"
  shows "bucket (select_rows E q) sid m =
     (if sid = q_slo_id q
      then (length (filter (holds E (q_goodCondition q))
              (minute_events E (q_sourceTable q) (q_filter q) (q_from q) (q_to q) m)),
            length (minute_events E (q_sourceTable q) (q_filter q) (q_from q) (q_to q) m))
      else (0, 0))"
proof -
  let ?ms = "remdups (map (\<lambda>e. toStartOfMinute (Timestamp e)) (in_scope E q))"
  have d: "distinct ?ms" by simp
  have f: "filter (\<lambda>r. slo_id r = sid \<and> timestamp r = m) (select_rows E q) =
        (if sid = q_slo_id q then map (group_row E q) (filter (\<lambda>x. x = m) ?ms) else [])"
    by (simp add: select_rows_def filter_map o_def)
  show ?thesis
  proof (cases "m \<in> set ?ms")
    case True
    then show ?thesis
      using filter_eq_distinct [OF d, of m]
      by (simp add: bucket_def f Let_def group_row_counts [OF assms])
  next
    case False
    then have "minute_events E (q_sourceTable q) (q_filter q) (q_from q) (q_to q) m = []"
      using minute_has_row [OF assms, of m] by (simp add: timestamps_select_rows)
    then show ?thesis
      using False filter_eq_distinct [OF d, of m]
      by (simp add: bucket_def f Let_def)
  qed
qed

text \<open>
  The builder branch of the task when the statement goes through, whether the update of
  the document goes through or not.
\<close>

lemma builder_task_rows:
  assumes "truthy (filter_str s) \<and> truthy (goodCondition s)"
    and "aggregation_window endTime s = Some (a, b)"
    and "command_error E (aggQuery s a b) = None"
  shows "slo_aggregates (slo_task E endTime s w) = slo_aggregates w @ select_rows E (aggQuery s a b)"
    and "filter is_command (sent w (slo_task E endTime s w)) = [Command (aggQuery s a b)]"
proof -
  let ?w1 = "log_write (LogEntry Info (Some (sloId s)) None ''Aggregating SLO metrics'') w"
  have ag: "aggregate E s a b ?w1 =
      ((send (Command (aggQuery s a b)) ?w1)
         \<lparr>slo_aggregates := slo_aggregates ?w1 @ select_rows E (aggQuery s a b)\<rparr>, None)"
    using assms(1) by (simp add: aggregate_def builder_mode_ok [OF assms(3)])
  show "slo_aggregates (slo_task E endTime s w) = slo_aggregates w @ select_rows E (aggQuery s a b)"
    by (simp add: slo_task_def try_block_def assms(2) ag update_watermark_def Let_def
        split: option.splits)
  show "filter is_command (sent w (slo_task E endTime s w)) = [Command (aggQuery s a b)]"
    by (simp add: slo_task_def try_block_def assms(2) ag update_watermark_def Let_def sent_def
        is_command_def split: option.splits)
qed

text \<open>
  C4, as the code has it, for a filter without a top level \<^verbatim>\<open>OR\<close>. In builder mode
  the task sends one grouped statement: it reads the source table of the SLO, keeps the
  events that satisfy the filter and lie in \<open>[startTime, endTime)\<close> (both bounds with
  their milliseconds cut off, which leaves a bound on a whole second as it is), and groups
  them by minute. When the statement goes through, the rows it appends have distinct
  minutes; a minute has a row exactly when it holds an event of that selection; the row
  holds the number of those events that satisfy the good condition and the number of
  those events. So the bucket of every minute grows by these two numbers, also of a
  minute without events, which gets no row.
\<close>

theorem builder_mode_rows:
  assumes "filter_str s = Some f" and "f \<noteq> []"
    and "goodCondition s = Some g" and "g \<noteq> []"
    and "or_split E f = ([], f)"
    and "aggregation_window endTime s = Some (a, b)"
    and "command_error E (aggQuery s a b) = None"
  shows "filter is_command (sent w (slo_task E endTime s w)) =
           [Command \<lparr> q_slo_id = sloId s, q_goodCondition = g, q_sourceTable = sourceTable s,
                      q_filter = f, q_from = sql_time a, q_to = sql_time endTime \<rparr>] \<and>
         slo_aggregates (slo_task E endTime s w) =
           slo_aggregates w @ written w (slo_task E endTime s w) \<and>
         distinct (map timestamp (written w (slo_task E endTime s w))) \<and>
         (m \<in> set (map timestamp (written w (slo_task E endTime s w)))) =
           (minute_events E (sourceTable s) f (sql_time a) (sql_time endTime) m \<noteq> []) \<and>
         list_all (\<lambda>r. r = \<lparr> slo_id = sloId s, timestamp = timestamp r,
              numerator_count = length (filter (holds E g)
                (minute_events E (sourceTable s) f (sql_time a) (sql_time endTime) (timestamp r))),
              denominator_count = length
                (minute_events E (sourceTable s) f (sql_time a) (sql_time endTime) (timestamp r)) \<rparr>)
           (written w (slo_task E endTime s w)) \<and>
         bucket (written w (slo_task E endTime s w)) (sloId s) m =
           (length (filter (holds E g)
              (minute_events E (sourceTable s) f (sql_time a) (sql_time endTime) m)),
            length (minute_events E (sourceTable s) f (sql_time a) (sql_time endTime) m))"
proof -
  let ?q = "aggQuery s a b"
  let ?w' = "slo_task E endTime s w"
  have tr: "truthy (filter_str s) \<and> truthy (goodCondition s)"
    using assms(1-4) by (simp add: truthy_def)
  have b: "b = endTime"
    using window_end [OF assms(6)] by simp
  have q: "?q = \<lparr> q_slo_id = sloId s, q_goodCondition = g, q_sourceTable = sourceTable s,
                  q_filter = f, q_from = sql_time a, q_to = sql_time endTime \<rparr>"
    using assms(1,3) b by (simp add: aggQuery_def interpolate_def)
  have qf: "q_slo_id ?q = sloId s" "q_goodCondition ?q = g" "q_sourceTable ?q = sourceTable s"
    "q_filter ?q = f" "q_from ?q = sql_time a" "q_to ?q = sql_time endTime"
    by (simp_all add: q)
  have os: "or_split E (q_filter ?q) = ([], q_filter ?q)"
    using assms(5) by (simp add: qf)
  note rows = builder_task_rows [OF tr assms(6,7), of w]
  have wr: "written w ?w' = select_rows E ?q"
    by (simp add: written_def rows(1))
  have c1: "filter is_command (sent w ?w') =
           [Command \<lparr> q_slo_id = sloId s, q_goodCondition = g, q_sourceTable = sourceTable s,
                      q_filter = f, q_from = sql_time a, q_to = sql_time endTime \<rparr>]"
    using rows(2) by (simp only: q)
  have c2: "slo_aggregates ?w' = slo_aggregates w @ written w ?w'"
    by (simp only: wr rows(1))
  have c3: "distinct (map timestamp (written w ?w'))"
    by (simp add: wr timestamps_select_rows)
  have c4: "(m \<in> set (map timestamp (written w ?w'))) =
           (minute_events E (sourceTable s) f (sql_time a) (sql_time endTime) m \<noteq> [])"
    using minute_has_row [OF os, of m] by (simp only: wr qf)
  have c5: "list_all (\<lambda>r. r = \<lparr> slo_id = sloId s, timestamp = timestamp r,
              numerator_count = length (filter (holds E g)
                (minute_events E (sourceTable s) f (sql_time a) (sql_time endTime) (timestamp r))),
              denominator_count = length
                (minute_events E (sourceTable s) f (sql_time a) (sql_time endTime) (timestamp r)) \<rparr>)
           (written w ?w')"
    unfolding wr select_rows_def list_all_iff
  proof
    fix r assume "r \<in> set (map (group_row E ?q)
        (remdups (map (\<lambda>e. toStartOfMinute (Timestamp e)) (in_scope E ?q))))"
    then obtain m' where r: "r = group_row E ?q m'" by auto
    show "r = \<lparr> slo_id = sloId s, timestamp = timestamp r,
              numerator_count = length (filter (holds E g)
                (minute_events E (sourceTable s) f (sql_time a) (sql_time endTime) (timestamp r))),
              denominator_count = length
                (minute_events E (sourceTable s) f (sql_time a) (sql_time endTime) (timestamp r)) \<rparr>"
      using group_row_counts [OF os, of m'] by (simp add: r qf)
  qed
  have c6: "bucket (written w ?w') (sloId s) m =
           (length (filter (holds E g)
              (minute_events E (sourceTable s) f (sql_time a) (sql_time endTime) m)),
            length (minute_events E (sourceTable s) f (sql_time a) (sql_time endTime) m))"
    using bucket_select_rows [OF os, of "sloId s" m] by (simp add: wr qf)
  from c1 c2 c3 c4 c5 c6 show ?thesis by blast
qed

lemma minute_events_example:
  "minute_events env_ok ''otel_logs'' ''ServiceName = api'' 0 180000 0 =
     [\<lparr> Timestamp = 30000, ServiceName = ''api'', SeverityNumber = 9 \<rparr>,
      \<lparr> Timestamp = 40000, ServiceName = ''api'', SeverityNumber = 17 \<rparr>]"
  "minute_events env_ok ''otel_logs'' ''ServiceName = api'' 0 180000 60000 = []"
  by (simp_all add: minute_events_def env_ok_def toStartOfMinute_def)

theorem builder_mode_rows_witness:
  "filter_str slo_b0 = Some ''ServiceName = api'' \<and> ''ServiceName = api'' \<noteq> [] \<and>
   goodCondition slo_b0 = Some ''SeverityNumber < 17'' \<and> ''SeverityNumber < 17'' \<noteq> [] \<and>
   or_split env_ok ''ServiceName = api'' = ([], ''ServiceName = api'') \<and>
   aggregation_window 180000 slo_b0 = Some (0, 180000) \<and>
   command_error env_ok (aggQuery slo_b0 0 180000) = None \<and>
   filter is_command (sent world0 (slo_task env_ok 180000 slo_b0 world0)) =
     [Command \<lparr> q_slo_id = ''b'', q_goodCondition = ''SeverityNumber < 17'',
                q_sourceTable = ''otel_logs'', q_filter = ''ServiceName = api'',
                q_from = 0, q_to = 180000 \<rparr>] \<and>
   distinct (map timestamp (written world0 (slo_task env_ok 180000 slo_b0 world0))) \<and>
   0 \<in> set (map timestamp (written world0 (slo_task env_ok 180000 slo_b0 world0))) \<and>
   60000 \<notin> set (map timestamp (written world0 (slo_task env_ok 180000 slo_b0 world0))) \<and>
   bucket (written world0 (slo_task env_ok 180000 slo_b0 world0)) ''b'' 0 = (1, 2) \<and>
   bucket (written world0 (slo_task env_ok 180000 slo_b0 world0)) ''b'' 60000 = (0, 0)"
proof -
  have h1: "filter_str slo_b0 = Some ''ServiceName = api''"
    and h3: "goodCondition slo_b0 = Some ''SeverityNumber < 17''"
    by (simp_all add: slo_b0_def slo_b_def)
  have h2: "''ServiceName = api'' \<noteq> []" and h4: "''SeverityNumber < 17'' \<noteq> []"
    by simp_all
  have h0: "or_split env_ok ''ServiceName = api'' = ([], ''ServiceName = api'')"
    by (simp add: env_ok_def)
  have h5: "aggregation_window 180000 slo_b0 = Some (0, 180000)"
    by (simp add: aggregation_window_def slo_b0_def slo_b_def ms_1h_def)
  have h6: "command_error env_ok (aggQuery slo_b0 0 180000) = None"
    by (simp add: env_ok_def)
  have e: "sloId slo_b0 = ''b''" "sourceTable slo_b0 = ''otel_logs''"
    "sql_time 0 = 0" "sql_time 180000 = 180000"
    by (simp_all add: slo_b0_def slo_b_def sql_time_def)
  have g: "holds env_ok ''SeverityNumber < 17'' = (\<lambda>e. SeverityNumber e < 17)"
    by (simp add: env_ok_def)
  note th = builder_mode_rows [OF h1 h2 h3 h4 h0 h5 h6, where w = world0]
  have k1: "filter is_command (sent world0 (slo_task env_ok 180000 slo_b0 world0)) =
     [Command \<lparr> q_slo_id = ''b'', q_goodCondition = ''SeverityNumber < 17'',
                q_sourceTable = ''otel_logs'', q_filter = ''ServiceName = api'',
                q_from = 0, q_to = 180000 \<rparr>]"
    using th [where m = 0] by (simp add: e)
  have k2: "distinct (map timestamp (written world0 (slo_task env_ok 180000 slo_b0 world0)))"
    using th [where m = 0] by simp
  have k3: "0 \<in> set (map timestamp (written world0 (slo_task env_ok 180000 slo_b0 world0)))"
    using th [where m = 0] by (simp add: e minute_events_example)
  have k4: "60000 \<notin> set (map timestamp (written world0 (slo_task env_ok 180000 slo_b0 world0)))"
    using th [where m = 60000] by (simp add: e minute_events_example)
  have k5: "bucket (written world0 (slo_task env_ok 180000 slo_b0 world0)) ''b'' 0 = (1, 2)"
    using th [where m = 0] by (simp add: e g minute_events_example)
  have k6: "bucket (written world0 (slo_task env_ok 180000 slo_b0 world0)) ''b'' 60000 = (0, 0)"
    using th [where m = 60000] by (simp add: e g minute_events_example)
  show ?thesis
    using h1 h2 h3 h4 h0 h5 h6 k1 k2 k3 k4 k5 k6 by simp
qed

text \<open>
  C4 as it is worded fails in two ways. Where a minute of the window holds no event of
  the selection: the window of one minute from 60000 to 120000 has elapsed, the wording
  asks for one row for it, and the task appends none. And where \<open>startTime\<close> is not
  on a whole second: with \<open>startTime\<close> 60500 the statement reads from 60000 on, and
  the row of the minute at 60000 counts an event at 60200, which is not in
  \<open>[startTime, endTime)\<close>.
\<close>

theorem builder_mode_rows_counterexample:
  "aggregation_window 120000 slo_b = Some (60000, 120000) \<and>
   written world0 (slo_task env_ok 120000 slo_b world0) \<noteq> claimed_rows env_ok slo_b 60000 120000 \<and>
   written world0 (slo_task env_ok 120000 slo_b world0) = [] \<and>
   claimed_rows env_ok slo_b 60000 120000 =
     [\<lparr> slo_id = ''b'', timestamp = 60000, numerator_count = 0, denominator_count = 0 \<rparr>] \<and>
   aggregation_window 120000 slo_ms = Some (60500, 120000) \<and>
   written world0 (slo_task env_ms 120000 slo_ms world0) =
     [\<lparr> slo_id = ''b'', timestamp = 60000, numerator_count = 1, denominator_count = 1 \<rparr>] \<and>
   minute_events env_ms ''otel_logs'' ''ServiceName = api'' 60500 120000 60000 = []"
proof -
  have w: "aggregation_window 120000 slo_b = Some (60000, 120000)"
    by (simp add: aggregation_window_def slo_b_def ms_1m_def ms_1h_def)
  have tr: "truthy (filter_str slo_b) \<and> truthy (goodCondition slo_b)"
    by (simp add: slo_b_def truthy_def)
  have ce: "command_error env_ok (aggQuery slo_b 60000 120000) = None"
    by (simp add: env_ok_def)
  have sc: "in_scope env_ok (aggQuery slo_b 60000 120000) = []"
    by (simp add: in_scope_def where_clause_def aggQuery_def env_ok_def slo_b_def
        interpolate_def sql_time_def)
  have "written world0 (slo_task env_ok 120000 slo_b world0)
          = select_rows env_ok (aggQuery slo_b 60000 120000)"
    by (simp add: written_def builder_task_rows(1) [OF tr w ce])
  then have r: "written world0 (slo_task env_ok 120000 slo_b world0) = []"
    by (simp add: select_rows_def sc)
  have em: "elapsed_minutes 60000 120000 = [60000]"
    by (simp add: elapsed_minutes_def)
  have me: "minute_events env_ok ''otel_logs'' ''ServiceName = api'' 60000 120000 60000 = []"
    by (simp add: minute_events_def env_ok_def)
  have c: "claimed_rows env_ok slo_b 60000 120000 =
     [\<lparr> slo_id = ''b'', timestamp = 60000, numerator_count = 0, denominator_count = 0 \<rparr>]"
    by (simp add: claimed_rows_def em slo_b_def interpolate_def me)
  have w2: "aggregation_window 120000 slo_ms = Some (60500, 120000)"
    by (simp add: aggregation_window_def slo_ms_def slo_b_def ms_1h_def)
  have tr2: "truthy (filter_str slo_ms) \<and> truthy (goodCondition slo_ms)"
    by (simp add: slo_ms_def slo_b_def truthy_def)
  have ce2: "command_error env_ms (aggQuery slo_ms 60500 120000) = None"
    by (simp add: env_ms_def env_ok_def)
  have "written world0 (slo_task env_ms 120000 slo_ms world0)
          = select_rows env_ms (aggQuery slo_ms 60500 120000)"
    by (simp add: written_def builder_task_rows(1) [OF tr2 w2 ce2])
  also have "\<dots> =
     [\<lparr> slo_id = ''b'', timestamp = 60000, numerator_count = 1, denominator_count = 1 \<rparr>]"
    by (simp add: select_rows_def group_row_def in_scope_def where_clause_def aggQuery_def
        env_ms_def env_ok_def slo_ms_def slo_b_def interpolate_def sql_time_def
        toStartOfMinute_def Let_def)
  finally have r2: "written world0 (slo_task env_ms 120000 slo_ms world0) =
     [\<lparr> slo_id = ''b'', timestamp = 60000, numerator_count = 1, denominator_count = 1 \<rparr>]" .
  have me2: "minute_events env_ms ''otel_logs'' ''ServiceName = api'' 60500 120000 60000 = []"
    by (simp add: minute_events_def env_ms_def)
  from w r c w2 r2 me2 show ?thesis by simp
qed

text \<open>
  The theorem above leaves out a filter with a top level \<^verbatim>\<open>OR\<close>. There the
  statement selects events outside the window: with the filter
  \<^verbatim>\<open>ServiceName = web OR ServiceName = api\<close> and the window from 120000 to 180000,
  the event of the service web at 50000 is selected and the task writes a row for the
  minute at 0.
\<close>

lemma or_filter_escapes:
  "aggregation_window 180000 slo_or = Some (120000, 180000) \<and>
   written world0 (slo_task env_or 180000 slo_or world0) =
     [\<lparr> slo_id = ''b'', timestamp = 120000, numerator_count = 1, denominator_count = 1 \<rparr>,
      \<lparr> slo_id = ''b'', timestamp = 0, numerator_count = 1, denominator_count = 1 \<rparr>]"
proof -
  have w: "aggregation_window 180000 slo_or = Some (120000, 180000)"
    by (simp add: aggregation_window_def slo_or_def slo_b_def ms_1h_def)
  have tr: "truthy (filter_str slo_or) \<and> truthy (goodCondition slo_or)"
    by (simp add: slo_or_def slo_b_def truthy_def)
  have ce: "command_error env_or (aggQuery slo_or 120000 180000) = None"
    by (simp add: env_or_def env_ok_def)
  have "written world0 (slo_task env_or 180000 slo_or world0)
          = select_rows env_or (aggQuery slo_or 120000 180000)"
    by (simp add: written_def builder_task_rows(1) [OF tr w ce])
  also have "\<dots> =
     [\<lparr> slo_id = ''b'', timestamp = 120000, numerator_count = 1, denominator_count = 1 \<rparr>,
      \<lparr> slo_id = ''b'', timestamp = 0, numerator_count = 1, denominator_count = 1 \<rparr>]"
    by (simp add: select_rows_def group_row_def in_scope_def where_clause_def aggQuery_def
        env_or_def env_ok_def slo_or_def slo_b_def interpolate_def sql_time_def
        toStartOfMinute_def Let_def)
  finally show ?thesis
    using w by simp
qed

subsection \<open>What a task adds to the world\<close>

lemma aggregate_frame:
  "fst (aggregate E s a b w) =
     w\<lparr> slo_aggregates := slo_aggregates w @ slo_aggregates (fst (aggregate E s a b empty_world)),
        calls := calls w @ calls (fst (aggregate E s a b empty_world)) \<rparr>"
  "snd (aggregate E s a b w) = snd (aggregate E s a b empty_world)"
  by (simp_all add: aggregate_def builder_mode_def raw_sql_mode_def Let_def empty_world_def
      send_def split: sum.splits option.splits)

lemma aggregate_rows_id:
  "list_all (\<lambda>r. slo_id r = sloId s) (slo_aggregates (fst (aggregate E s a b empty_world)))"
  by (simp add: aggregate_def builder_mode_def raw_sql_mode_def Let_def empty_world_def
      send_def select_rows_def aggQuery_def list_all_iff split: sum.splits option.splits)

lemma update_watermark_frame:
  "fst (update_watermark E s t w) =
     w\<lparr> slos := (if updateOne_error E (sloId s) t = None then updateOne (sloId s) t (slos w)
                  else slos w),
        calls := calls w @ [UpdateOne (sloId s) t] \<rparr>"
  "snd (update_watermark E s t w) = updateOne_error E (sloId s) t"
  by (simp_all add: update_watermark_def Let_def send_def split: option.splits)

lemma window_cases:
  obtains "aggregation_window endTime s = None"
  | a where "aggregation_window endTime s = Some (a, endTime)"
proof (cases "aggregation_window endTime s")
  case None
  then show ?thesis by (rule that(1))
next
  case (Some p)
  obtain a b where p: "p = (a, b)" by (cases p)
  have "b = endTime"
    using window_end [of endTime s a b] Some p by simp
  then show ?thesis
    using Some p by (auto intro: that(2))
qed

lemma try_block_error:
  "snd (try_block E endTime s w) = task_error E endTime s"
proof (cases endTime s rule: window_cases)
  case 1
  then show ?thesis by (simp add: try_block_def task_error_def)
next
  case (2 a)
  let ?i = "LogEntry Info (Some (sloId s)) None ''Aggregating SLO metrics''"
  have ag: "aggregate E s a endTime (log_write ?i v) =
      (fst (aggregate E s a endTime (log_write ?i v)), snd (aggregate E s a endTime empty_world))" for v
    using aggregate_frame(2) [of E s a endTime "log_write ?i v"] by (simp add: prod_eq_iff)
  have "snd (try_block E endTime s v) =
      (case snd (aggregate E s a endTime empty_world) of Some e \<Rightarrow> Some e
       | None \<Rightarrow> updateOne_error E (sloId s) endTime)" for v
    unfolding try_block_def Let_def 2 option.case prod.case
    by (subst ag) (simp add: update_watermark_frame split: option.splits)
  then show ?thesis
    by (simp add: task_error_def)
qed

lemma try_block_frame:
  "fst (try_block E endTime s w) =
     w\<lparr> slo_aggregates := slo_aggregates w @ slo_aggregates (fst (try_block E endTime s empty_world)),
        slos := (if advances E endTime s then updateOne (sloId s) endTime (slos w) else slos w),
        calls := calls w @ calls (fst (try_block E endTime s empty_world)),
        logs := logs w @ [LogEntry Info (Some (sloId s)) None ''Aggregating SLO metrics''] \<rparr>"
proof (cases endTime s rule: window_cases)
  case 1
  then show ?thesis
    by (simp add: try_block_def advances_def log_write_def empty_world_def)
next
  case (2 a)
  let ?i = "LogEntry Info (Some (sloId s)) None ''Aggregating SLO metrics''"
  let ?R = "slo_aggregates (fst (aggregate E s a endTime empty_world))"
  let ?C = "calls (fst (aggregate E s a endTime empty_world))"
  let ?r = "snd (aggregate E s a endTime empty_world)"
  have ag: "aggregate E s a endTime (log_write ?i v) =
      ((log_write ?i v)\<lparr> slo_aggregates := slo_aggregates v @ ?R, calls := calls v @ ?C \<rparr>, ?r)" for v
    using aggregate_frame [of E s a endTime "log_write ?i v"]
    by (simp add: prod_eq_iff)
  have tb: "try_block E endTime s v =
      (case ?r of
         Some e \<Rightarrow> ((log_write ?i v)\<lparr> slo_aggregates := slo_aggregates v @ ?R, calls := calls v @ ?C \<rparr>, Some e)
       | None \<Rightarrow> update_watermark E s endTime
           ((log_write ?i v)\<lparr> slo_aggregates := slo_aggregates v @ ?R, calls := calls v @ ?C \<rparr>))" for v
    unfolding try_block_def Let_def 2 option.case prod.case
    by (subst ag) (simp split: option.splits)
  have te: "task_error E endTime s =
      (case ?r of Some e \<Rightarrow> Some e | None \<Rightarrow> updateOne_error E (sloId s) endTime)"
    by (simp add: task_error_def tb update_watermark_frame split: option.splits)
  show ?thesis
    by (simp add: tb 2 advances_def te log_write_def empty_world_def
        update_watermark_def Let_def send_def split: option.splits)
qed

lemma slo_task_frame:
  "slo_task E endTime s w =
     w\<lparr> slo_aggregates := slo_aggregates w @ task_rows E endTime s,
        slos := (if advances E endTime s then updateOne (sloId s) endTime (slos w) else slos w),
        calls := calls w @ task_calls E endTime s,
        logs := logs w @ task_logs E endTime s \<rparr>"
proof -
  have e: "snd (try_block E endTime s w) = snd (try_block E endTime s empty_world)"
    by (simp add: try_block_error)
  obtain v r where v: "try_block E endTime s w = (v, r)" by (cases "try_block E endTime s w")
  obtain v0 r0 where v0: "try_block E endTime s empty_world = (v0, r0)"
    by (cases "try_block E endTime s empty_world")
  have r: "r0 = r" using e v v0 by simp
  have f: "v = w\<lparr> slo_aggregates := slo_aggregates w @ slo_aggregates v0,
        slos := (if advances E endTime s then updateOne (sloId s) endTime (slos w) else slos w),
        calls := calls w @ calls v0,
        logs := logs w @ [LogEntry Info (Some (sloId s)) None ''Aggregating SLO metrics''] \<rparr>"
    using try_block_frame [of E endTime s w] v v0 by simp
  have f0: "logs v0 = [LogEntry Info (Some (sloId s)) None ''Aggregating SLO metrics'']"
  proof -
    have "logs (fst (try_block E endTime s empty_world)) =
        [LogEntry Info (Some (sloId s)) None ''Aggregating SLO metrics'']"
      by (subst try_block_frame) (simp add: empty_world_def)
    then show ?thesis
      by (simp add: v0)
  qed
  show ?thesis
    by (simp add: slo_task_def task_rows_def task_calls_def task_logs_def v v0 r f f0
        log_write_def split: option.splits)
qed

lemma task_logs_cases:
  "task_logs E endTime s =
     LogEntry Info (Some (sloId s)) None ''Aggregating SLO metrics'' #
     (case task_error E endTime s of
        None \<Rightarrow> []
      | Some e \<Rightarrow> [LogEntry Error (Some (sloId s)) (Some e) ''Failed to check SLO''])"
proof -
  obtain v0 r0 where v0: "try_block E endTime s empty_world = (v0, r0)"
    by (cases "try_block E endTime s empty_world")
  have "logs (fst (try_block E endTime s empty_world)) =
      [LogEntry Info (Some (sloId s)) None ''Aggregating SLO metrics'']"
    by (subst try_block_frame) (simp add: empty_world_def)
  then have l: "logs v0 = [LogEntry Info (Some (sloId s)) None ''Aggregating SLO metrics'']"
    by (simp add: v0)
  have r: "task_error E endTime s = r0"
    by (simp add: task_error_def v0)
  show ?thesis
    by (simp add: task_logs_def slo_task_def v0 l r split: option.splits)
qed

lemma task_rows_id:
  "list_all (\<lambda>r. slo_id r = sloId s) (task_rows E endTime s)"
proof (cases endTime s rule: window_cases)
  case 1
  then show ?thesis
    by (simp add: task_rows_def task_skip empty_world_def)
next
  case (2 a)
  let ?i = "LogEntry Info (Some (sloId s)) None ''Aggregating SLO metrics''"
  let ?w1 = "log_write ?i empty_world"
  obtain v r where ag: "aggregate E s a endTime ?w1 = (v, r)"
    by (cases "aggregate E s a endTime ?w1")
  have "slo_aggregates (fst (aggregate E s a endTime ?w1)) =
      slo_aggregates ?w1 @ slo_aggregates (fst (aggregate E s a endTime empty_world))"
    by (subst aggregate_frame(1)) simp
  moreover have "slo_aggregates ?w1 = []"
    by (simp add: empty_world_def)
  ultimately have v: "slo_aggregates v = slo_aggregates (fst (aggregate E s a endTime empty_world))"
    by (simp add: ag)
  have "task_rows E endTime s = slo_aggregates v"
    by (simp add: task_rows_def slo_task_def try_block_def 2 ag update_watermark_def Let_def
        split: option.splits)
  then show ?thesis
    using aggregate_rows_id [of s E a endTime] by (simp add: v)
qed

lemma watermark_updateOne:
  "watermark sid (updateOne sid' t ds) =
     (if sid = sid' then map_option (\<lambda>_. Some t) (watermark sid ds) else watermark sid ds)"
  by (induction ds) auto

lemma view_slo_task:
  "view sid (slo_task E endTime s w) =
     (if sid = sloId s
      then (fst (view sid w) @ task_rows E endTime s,
            (if advances E endTime s then map_option (\<lambda>_. Some endTime) (fst (snd (view sid w)))
             else fst (snd (view sid w))),
            snd (snd (view sid w)) @ task_logs E endTime s)
      else view sid w)"
proof -
  have r: "filter (\<lambda>r. slo_id r = sid) (task_rows E endTime s) =
      (if sid = sloId s then task_rows E endTime s else [])"
    using task_rows_id [of s E endTime] by (auto simp: list_all_iff filter_empty_conv filter_id_conv)
  have l: "filter (\<lambda>l. log_context l = Some sid) (task_logs E endTime s) =
      (if sid = sloId s then task_logs E endTime s else [])"
    by (auto simp: task_logs_cases log_context_def split: option.splits)
  show ?thesis
    by (subst slo_task_frame) (simp add: view_def r l watermark_updateOne)
qed

lemma view_slo_task_cong:
  "view sid w1 = view sid w2 \<Longrightarrow>
   view sid (slo_task E endTime s w1) = view sid (slo_task E endTime s w2)"
  by (auto simp: view_slo_task)

lemma view_run_queue_cong:
  "view sid w1 = view sid w2 \<Longrightarrow>
   view sid (run_queue E endTime ss w1) = view sid (run_queue E endTime ss w2)"
proof (induction ss arbitrary: w1 w2)
  case Nil
  then show ?case by simp
next
  case (Cons s ss)
  show ?case
    using Cons.IH [OF view_slo_task_cong [OF Cons.prems]] by simp
qed

lemma run_queue_append:
  "run_queue E endTime (xs @ ys) w = run_queue E endTime ys (run_queue E endTime xs w)"
  by (induction xs arbitrary: w) simp_all

lemma logs_slo_task:
  "logs (slo_task E endTime s w) = logs w @ task_logs E endTime s"
  by (subst slo_task_frame) simp

lemma logs_run_queue_mono:
  "set (logs w) \<subseteq> set (logs (run_queue E endTime ss w))"
proof (induction ss arbitrary: w)
  case Nil
  then show ?case by simp
next
  case (Cons s ss)
  have "set (logs w) \<subseteq> set (logs (slo_task E endTime s w))"
    by (simp add: logs_slo_task)
  also have "\<dots> \<subseteq> set (logs (run_queue E endTime ss (slo_task E endTime s w)))"
    by (rule Cons.IH)
  finally show ?case by simp
qed

lemma run_queue_visits:
  "t \<in> set ss \<Longrightarrow>
   LogEntry Info (Some (sloId t)) None ''Aggregating SLO metrics''
     \<in> set (logs (run_queue E endTime ss w))"
proof (induction ss arbitrary: w)
  case Nil
  then show ?case by simp
next
  case (Cons s ss)
  show ?case
  proof (cases "t = s")
    case True
    have "LogEntry Info (Some (sloId s)) None ''Aggregating SLO metrics''
        \<in> set (logs (slo_task E endTime s w))"
      by (simp add: logs_slo_task task_logs_cases)
    then show ?thesis
      using logs_run_queue_mono [of "slo_task E endTime s w" E endTime ss] True by auto
  next
    case False
    then have "t \<in> set ss" using Cons.prems by simp
    then show ?thesis
      using Cons.IH by simp
  qed
qed

subsection \<open>A task that fails\<close>

lemma watermark_remove:
  "sid \<noteq> sloId s \<Longrightarrow> watermark sid (xs @ s # ys) = watermark sid (xs @ ys)"
  by (induction xs) auto

lemma view_log_write_None [simp]:
  "view sid (log_write (LogEntry v None x m) w) = view sid w"
  by (simp add: view_def log_context_def)

lemma view_remove:
  assumes "sid \<noteq> sloId s"
  shows "view sid (run_queue E endTime (xs @ s # ys) w) = view sid (run_queue E endTime (xs @ ys) w)"
proof -
  have "view sid (slo_task E endTime s (run_queue E endTime xs w)) = view sid (run_queue E endTime xs w)"
    using assms by (simp add: view_slo_task)
  then have "view sid (run_queue E endTime ys (slo_task E endTime s (run_queue E endTime xs w))) =
      view sid (run_queue E endTime ys (run_queue E endTime xs w))"
    by (rule view_run_queue_cong)
  then show ?thesis
    by (simp add: run_queue_append)
qed

lemma execute_unfold:
  "execute E now w =
     log_write (LogEntry Info None None ''Finished SLO checks'')
       (run_queue E (setSeconds00 E now) (slos w)
          (log_write (LogEntry Info None None ''Found SLOs to check'')
             (log_write (LogEntry Info None None ''Starting SLO checks...'') w)))"
  by (simp add: execute_def Let_def)

text \<open>
  C3. When the \<^verbatim>\<open>try\<close> block of an SLO throws, the task logs the error with the
  identifier of the SLO and leaves every document as it was, so \<open>lastAggregatedAt\<close>
  is unchanged. The tick goes on: every SLO of the collection is taken up, the tick ends
  with its closing message, and what the tick leaves for any other SLO (rows, watermark,
  log entries) is what a tick without the failing SLO leaves.
\<close>

theorem task_failure:
  assumes "task_error E (setSeconds00 E now) s = Some e"
    and "slos w = xs @ s # ys"
  shows "snd (try_block E (setSeconds00 E now) s w0) = Some e \<and>
     logged w0 (slo_task E (setSeconds00 E now) s w0) =
       [LogEntry Info (Some (sloId s)) None ''Aggregating SLO metrics'',
        LogEntry Error (Some (sloId s)) (Some e) ''Failed to check SLO''] \<and>
     slos (slo_task E (setSeconds00 E now) s w0) = slos w0 \<and>
     list_all (\<lambda>t. LogEntry Info (Some (sloId t)) None ''Aggregating SLO metrics''
                     \<in> set (logs (execute E now w))) (slos w) \<and>
     last (logs (execute E now w)) = LogEntry Info None None ''Finished SLO checks'' \<and>
     (sid \<noteq> sloId s \<longrightarrow>
        view sid (execute E now w) = view sid (execute E now (w\<lparr>slos := xs @ ys\<rparr>)))"
proof -
  let ?t = "setSeconds00 E now"
  have c0: "snd (try_block E ?t s w0) = Some e"
    using assms(1) by (simp add: try_block_error)
  have adv: "\<not> advances E ?t s"
    using assms(1) by (simp add: advances_def)
  have c1: "logged w0 (slo_task E ?t s w0) =
       [LogEntry Info (Some (sloId s)) None ''Aggregating SLO metrics'',
        LogEntry Error (Some (sloId s)) (Some e) ''Failed to check SLO'']"
    using assms(1) by (simp add: logged_def logs_slo_task task_logs_cases)
  have c2: "slos (slo_task E ?t s w0) = slos w0"
    using adv by (subst slo_task_frame) simp
  have c3: "list_all (\<lambda>t. LogEntry Info (Some (sloId t)) None ''Aggregating SLO metrics''
                     \<in> set (logs (execute E now w))) (slos w)"
    by (simp add: list_all_iff execute_unfold run_queue_visits)
  have c4: "last (logs (execute E now w)) = LogEntry Info None None ''Finished SLO checks''"
    by (simp add: execute_unfold)
  have c5: "view sid (execute E now w) = view sid (execute E now (w\<lparr>slos := xs @ ys\<rparr>))"
    if ne: "sid \<noteq> sloId s"
  proof -
    let ?p = "\<lambda>v. log_write (LogEntry Info None None ''Found SLOs to check'')
             (log_write (LogEntry Info None None ''Starting SLO checks...'') v)"
    have "view sid (?p w) = view sid (?p (w\<lparr>slos := xs @ ys\<rparr>))"
      using ne by (simp add: view_def assms(2) watermark_remove)
    then have "view sid (run_queue E ?t (xs @ ys) (?p w)) =
        view sid (run_queue E ?t (xs @ ys) (?p (w\<lparr>slos := xs @ ys\<rparr>)))"
      by (rule view_run_queue_cong)
    moreover have "view sid (run_queue E ?t (xs @ s # ys) (?p w)) =
        view sid (run_queue E ?t (xs @ ys) (?p w))"
      using ne by (rule view_remove)
    ultimately show ?thesis
      by (simp add: execute_unfold assms(2))
  qed
  from c0 c1 c2 c3 c4 c5 show ?thesis by blast
qed

theorem task_failure_witness:
  "task_error env_fail (setSeconds00 env_fail 125000) slo_b = Some (Exn ''timeout'') \<and>
   slos world0 = [] @ slo_b # [slo_r] \<and>
   snd (try_block env_fail (setSeconds00 env_fail 125000) slo_b world0) = Some (Exn ''timeout'') \<and>
   logged world0 (slo_task env_fail (setSeconds00 env_fail 125000) slo_b world0) =
     [LogEntry Info (Some (sloId slo_b)) None ''Aggregating SLO metrics'',
      LogEntry Error (Some (sloId slo_b)) (Some (Exn ''timeout'')) ''Failed to check SLO''] \<and>
   slos (slo_task env_fail (setSeconds00 env_fail 125000) slo_b world0) = slos world0 \<and>
   list_all (\<lambda>t. LogEntry Info (Some (sloId t)) None ''Aggregating SLO metrics''
                   \<in> set (logs (execute env_fail 125000 world0))) (slos world0) \<and>
   last (logs (execute env_fail 125000 world0)) = LogEntry Info None None ''Finished SLO checks'' \<and>
   ''r'' \<noteq> sloId slo_b \<and>
   view ''r'' (execute env_fail 125000 world0) =
     view ''r'' (execute env_fail 125000 (world0\<lparr>slos := [] @ [slo_r]\<rparr>))"
proof -
  have h1: "task_error env_fail (setSeconds00 env_fail 125000) slo_b = Some (Exn ''timeout'')"
    by (simp add: task_error_def try_block_def aggregation_window_def setSeconds00_def slo_b_def
        ms_1m_def ms_1h_def aggregate_def truthy_def builder_mode_def env_fail_def env_ok_def
        Let_def)
  have h2: "slos world0 = [] @ slo_b # [slo_r]"
    by (simp add: world0_def)
  have h3: "''r'' \<noteq> sloId slo_b"
    by (simp add: slo_b_def)
  show ?thesis
    using h1 h2 h3 task_failure [OF h1 h2, where ?w0.0 = world0 and sid = "''r''"]
    by simp
qed

subsection \<open>The watermark\<close>

lemma window_before:
  "aggregation_window endTime s \<noteq> None \<Longrightarrow> before (lastAggregatedAt s) endTime"
  by (cases "lastAggregatedAt s") (auto simp: aggregation_window_def Let_def split: if_splits)

lemma advances_before:
  "advances E endTime s \<Longrightarrow> before (lastAggregatedAt s) endTime"
  by (simp add: advances_def window_before)

lemma slos_slo_task:
  "slos (slo_task E endTime s w) =
     (if advances E endTime s then updateOne (sloId s) endTime (slos w) else slos w)"
  by (subst slo_task_frame) simp

lemma ids_updateOne [simp]: "map sloId (updateOne sid t ds) = map sloId ds"
  by (induction ds) auto

lemma ids_slo_task [simp]: "map sloId (slos (slo_task E endTime s w)) = map sloId (slos w)"
  by (simp add: slos_slo_task)

lemma ids_run_queue [simp]: "map sloId (slos (run_queue E endTime ss w)) = map sloId (slos w)"
  by (induction ss arbitrary: w) simp_all

lemma ids_execute [simp]: "map sloId (slos (execute E now w)) = map sloId (slos w)"
  by (simp add: execute_unfold)

lemma watermark_None_iff: "(watermark sid ds = None) = (sid \<notin> set (map sloId ds))"
  by (induction ds) auto

lemma watermark_distinct:
  "distinct (map sloId ds) \<Longrightarrow> s \<in> set ds \<Longrightarrow> watermark (sloId s) ds = Some (lastAggregatedAt s)"
  by (induction ds) (auto simp: image_iff)

text \<open>
  The watermarks after the queue has run: the tasks hold the documents as they were read
  at the start of the tick, and every identifier occurs once.
\<close>

lemma watermark_run_queue:
  assumes "distinct (map sloId ss)"
    and "list_all (\<lambda>s. watermark (sloId s) (slos w) = Some (lastAggregatedAt s)) ss"
  shows "watermark sid (slos (run_queue E t ss w)) =
     (if list_ex (\<lambda>s. sloId s = sid \<and> advances E t s) ss then Some (Some t)
      else watermark sid (slos w))"
  using assms
proof (induction ss arbitrary: w)
  case Nil
  then show ?case by simp
next
  case (Cons s ss)
  let ?w' = "slo_task E t s w"
  have d: "distinct (map sloId ss)" and n: "sloId s \<notin> set (map sloId ss)"
    using Cons.prems(1) by simp_all
  have own: "watermark (sloId s) (slos w) = Some (lastAggregatedAt s)"
    using Cons.prems(2) by simp
  have n': "sloId s' \<noteq> sloId s" if "s' \<in> set ss" for s'
  proof
    assume "sloId s' = sloId s"
    then have "sloId s \<in> sloId ` set ss"
      using that by (metis imageI)
    then show False using n by simp
  qed
  have keep: "list_all (\<lambda>s'. watermark (sloId s') (slos ?w') = Some (lastAggregatedAt s')) ss"
    using Cons.prems(2) n'
    by (simp add: list_all_iff slos_slo_task watermark_updateOne)
  have step: "watermark sid (slos ?w') =
      (if sloId s = sid \<and> advances E t s then Some (Some t) else watermark sid (slos w))"
    using own by (auto simp: slos_slo_task watermark_updateOne)
  have rest: "\<not> list_ex (\<lambda>s'. sloId s' = sid \<and> advances E t s') ss" if "sloId s = sid"
    using n' that by (auto simp: list_ex_iff)
  show ?case
    using Cons.IH [OF d keep] step rest by auto
qed

lemma watermark_execute:
  assumes "distinct (map sloId (slos w))"
  shows "watermark sid (slos (execute E now w)) =
     (if list_ex (\<lambda>s. sloId s = sid \<and> advances E (setSeconds00 E now) s) (slos w)
      then Some (Some (setSeconds00 E now)) else watermark sid (slos w))"
proof -
  let ?p = "log_write (LogEntry Info None None ''Found SLOs to check'')
             (log_write (LogEntry Info None None ''Starting SLO checks...'') w)"
  have "list_all (\<lambda>s. watermark (sloId s) (slos ?p) = Some (lastAggregatedAt s)) (slos w)"
    using assms by (simp add: list_all_iff watermark_distinct)
  then show ?thesis
    using watermark_run_queue [OF assms, of ?p sid E "setSeconds00 E now"]
    by (simp add: execute_unfold)
qed

lemma execute_step:
  assumes "distinct (map sloId (slos w))"
  shows "watermark sid (slos (execute E now w)) = watermark sid (slos w) \<or>
     watermark sid (slos (execute E now w)) = Some (Some (setSeconds00 E now)) \<and>
       before_opt (watermark sid (slos w)) (setSeconds00 E now)"
proof (cases "list_ex (\<lambda>s. sloId s = sid \<and> advances E (setSeconds00 E now) s) (slos w)")
  case True
  then obtain s where s: "s \<in> set (slos w)" "sloId s = sid" "advances E (setSeconds00 E now) s"
    by (auto simp: list_ex_iff)
  have "watermark sid (slos w) = Some (lastAggregatedAt s)"
    using watermark_distinct [OF assms s(1)] s(2) by simp
  then have "before_opt (watermark sid (slos w)) (setSeconds00 E now)"
    using advances_before [OF s(3)] by (simp add: before_opt_def)
  then show ?thesis
    using True by (simp add: watermark_execute [OF assms])
next
  case False
  then show ?thesis
    by (simp add: watermark_execute [OF assms])
qed

lemma wm_le_refl [simp]: "wm_le a a"
  by (cases a) simp_all

lemma wm_le_trans: "wm_le a b \<Longrightarrow> wm_le b c \<Longrightarrow> wm_le a c"
  by (cases a; cases b; cases c) simp_all

lemma before_wm_le: "before a t \<Longrightarrow> wm_le a (Some t)"
  by (cases a) simp_all

lemma execute_mono:
  assumes "distinct (map sloId (slos w))"
  shows "rel_option wm_le (watermark sid (slos w)) (watermark sid (slos (execute E now w)))"
  using execute_step [OF assms, of sid E now]
  by (cases "watermark sid (slos w)")
     (auto simp: before_opt_def option.rel_refl_strong before_wm_le)

lemma ticks_mono:
  assumes "distinct (map sloId (slos w))"
  shows "rel_option wm_le (watermark sid (slos w)) (watermark sid (slos (ticks ts w)))"
  using assms
proof (induction ts arbitrary: w)
  case Nil
  show ?case by (simp add: option.rel_refl_strong)
next
  case (Cons p ts)
  obtain E now where p: "p = (E, now)" by (cases p)
  have d: "distinct (map sloId (slos (execute E now w)))"
    using Cons.prems by simp
  have a: "rel_option wm_le (watermark sid (slos w)) (watermark sid (slos (execute E now w)))"
    using Cons.prems by (rule execute_mono)
  have b: "rel_option wm_le (watermark sid (slos (execute E now w)))
      (watermark sid (slos (ticks ts (execute E now w))))"
    using d by (rule Cons.IH)
  have "rel_option wm_le (watermark sid (slos w)) (watermark sid (slos (ticks ts (execute E now w))))"
    using a b by (auto simp: option_rel_Some1 option_rel_Some2 elim!: option.rel_cases
        intro: wm_le_trans)
  then show ?case by (simp add: p)
qed

text \<open>
  A tick leaves the watermark of an SLO as it was or sets it to \<open>endTime\<close>, and sets
  it only when the watermark was unset or strictly before \<open>endTime\<close>. So over any
  sequence of ticks, whatever their clock values and time zones, the watermark of an SLO
  never decreases. The identifiers of the collection are distinct, as Mongo's
  \<^verbatim>\<open>_id\<close> is.
\<close>

lemma watermark_never_decreases:
  assumes "distinct (map sloId (slos w))"
  shows "(watermark sid (slos (execute E now w)) = watermark sid (slos w) \<or>
      watermark sid (slos (execute E now w)) = Some (Some (setSeconds00 E now)) \<and>
        before_opt (watermark sid (slos w)) (setSeconds00 E now)) \<and>
     rel_option wm_le (watermark sid (slos w)) (watermark sid (slos (ticks ts w)))"
  using execute_step [OF assms, of sid E now] ticks_mono [OF assms, of sid ts] by blast

text \<open>
  Where the offset of the zone is a whole number of minutes and the truncated local time
  is read back with the offset it was taken with, \<open>endTime\<close> is the clock value cut
  down to the minute.
\<close>

lemma setSeconds00_plain:
  assumes "localTZA_local E (now + localTZA_utc E now - (now + localTZA_utc E now) mod 60000)
             = localTZA_utc E now"
    and "localTZA_utc E now mod 60000 = 0"
  shows "setSeconds00 E now = now - now mod 60000"
proof -
  have "(now + localTZA_utc E now) mod 60000 = now mod 60000"
    using mod_add_right_eq [of now "localTZA_utc E now" 60000] assms(2) by simp
  then show ?thesis
    using assms(1) by (simp add: setSeconds00_def Let_def)
qed

text \<open>
  C7 on the code. The process runs in the zone America/New_York and the tick fires at
  06:30:45 UTC on 2026-11-01, in the second pass of the hour that the end of daylight
  saving time repeats. The clock cut down to the minute is 06:30:00 UTC; \<open>endTime\<close>
  is 05:30:00 UTC, one hour earlier, because \<^verbatim>\<open>setSeconds\<close> works on local time and
  the repeated local time 01:30:00 is read back with the offset of before the change.
  An SLO last aggregated at 05:59 UTC is then skipped as already current.
\<close>

theorem fall_back_endTime:
  "setSeconds00 env_ny 1793514645000 = 1793511000000 \<and>
   1793514645000 - 1793514645000 mod 60000 = (1793514600000 :: int) \<and>
   aggregation_window (setSeconds00 env_ny 1793514645000) slo_ny = None"
proof -
  have t: "setSeconds00 env_ny 1793514645000 = 1793511000000"
    by (simp add: setSeconds00_def env_ny_def Let_def)
  have m: "1793514645000 - 1793514645000 mod 60000 = (1793514600000 :: int)"
    by simp
  have w: "aggregation_window 1793511000000 slo_ny = None"
    by (simp add: aggregation_window_def slo_ny_def)
  from t m w show ?thesis by simp
qed

subsection \<open>A definition that fits neither mode\<close>

lemma no_warning_task: "filter is_warning (task_logs E endTime s) = []"
  by (simp add: task_logs_cases is_warning_def log_level_def split: option.splits)

lemma no_warning_queue:
  "filter is_warning (logs (run_queue E endTime ss w)) = filter is_warning (logs w)"
  by (induction ss arbitrary: w) (simp_all add: logs_slo_task no_warning_task)

lemma no_warning_execute:
  "filter is_warning (logs (execute E now w)) = filter is_warning (logs w)"
  by (simp add: execute_unfold no_warning_queue is_warning_def log_level_def)

text \<open>
  C6, as the code has it. The task makes no check of the definition and never writes a
  warning. An SLO that is complete in neither mode lacks \<^verbatim>\<open>filter\<close> or
  \<^verbatim>\<open>goodCondition\<close>, so it takes the raw SQL branch with the queries it has. When
  that throws, the error is logged at error level with the identifier of the SLO and the
  documents stay as they were; when it does not, \<open>lastAggregatedAt\<close> is set as for any
  other SLO. In both cases the tick takes up every SLO and ends with its closing message.
\<close>

theorem invalid_definition:
  assumes "\<not> (truthy (filter_str s) \<and> truthy (goodCondition s))"
    and "\<not> (truthy (numeratorQuery s) \<and> truthy (denominatorQuery s))"
  shows "aggregate E s a b w0 = raw_sql_mode E s a b w0 \<and>
     filter is_warning (logged w0 (slo_task E endTime s w0)) = [] \<and>
     filter is_warning (logs (execute E now w)) = filter is_warning (logs w) \<and>
     (task_error E endTime s = Some e \<longrightarrow>
        logged w0 (slo_task E endTime s w0) =
          [LogEntry Info (Some (sloId s)) None ''Aggregating SLO metrics'',
           LogEntry Error (Some (sloId s)) (Some e) ''Failed to check SLO''] \<and>
        slos (slo_task E endTime s w0) = slos w0) \<and>
     (task_error E endTime s = None \<and> aggregation_window endTime s \<noteq> None \<longrightarrow>
        slos (slo_task E endTime s w0) = updateOne (sloId s) endTime (slos w0)) \<and>
     list_all (\<lambda>t. LogEntry Info (Some (sloId t)) None ''Aggregating SLO metrics''
                     \<in> set (logs (execute E now w))) (slos w) \<and>
     last (logs (execute E now w)) = LogEntry Info None None ''Finished SLO checks''"
proof -
  have c1: "aggregate E s a b w0 = raw_sql_mode E s a b w0"
    using assms(1) by (auto simp: aggregate_def)
  have c2: "filter is_warning (logged w0 (slo_task E endTime s w0)) = []"
    by (simp add: logged_def logs_slo_task no_warning_task)
  have c3: "filter is_warning (logs (execute E now w)) = filter is_warning (logs w)"
    by (rule no_warning_execute)
  have c4: "logged w0 (slo_task E endTime s w0) =
          [LogEntry Info (Some (sloId s)) None ''Aggregating SLO metrics'',
           LogEntry Error (Some (sloId s)) (Some e) ''Failed to check SLO''] \<and>
        slos (slo_task E endTime s w0) = slos w0"
    if "task_error E endTime s = Some e"
    using that by (simp add: logged_def logs_slo_task task_logs_cases slos_slo_task advances_def)
  have c5: "slos (slo_task E endTime s w0) = updateOne (sloId s) endTime (slos w0)"
    if "task_error E endTime s = None \<and> aggregation_window endTime s \<noteq> None"
    using that by (simp add: slos_slo_task advances_def)
  have c6: "list_all (\<lambda>t. LogEntry Info (Some (sloId t)) None ''Aggregating SLO metrics''
                     \<in> set (logs (execute E now w))) (slos w)"
    by (simp add: list_all_iff execute_unfold run_queue_visits)
  have c7: "last (logs (execute E now w)) = LogEntry Info None None ''Finished SLO checks''"
    by (simp add: execute_unfold)
  from c1 c2 c3 c4 c5 c6 c7 show ?thesis by blast
qed

lemma slo_x_error:
  "task_error env_ok 120000 slo_x = Some (Exn ''TypeError'')"
proof -
  have w: "aggregation_window 120000 slo_x = Some (60000, 120000)"
    by (simp add: aggregation_window_def slo_x_def ms_1m_def ms_1h_def)
  have m: "truthy (goodCondition slo_x) = False"
    by (simp add: slo_x_def truthy_def)
  have i: "injectTimeFilter env_ok (numeratorQuery slo_x) 60000 120000 = Inr ''num''"
    "injectTimeFilter env_ok (denominatorQuery slo_x) 60000 120000 = Inl (Exn ''TypeError'')"
    by (simp_all add: env_ok_def slo_x_def)
  show ?thesis
    by (simp add: task_error_def try_block_def w aggregate_def m raw_sql_mode_def i Let_def)
qed

theorem invalid_definition_witness:
  "\<not> (truthy (filter_str slo_x) \<and> truthy (goodCondition slo_x)) \<and>
   \<not> (truthy (numeratorQuery slo_x) \<and> truthy (denominatorQuery slo_x)) \<and>
   aggregate env_ok slo_x 60000 120000 world_x = raw_sql_mode env_ok slo_x 60000 120000 world_x \<and>
   filter is_warning (logged world_x (slo_task env_ok 120000 slo_x world_x)) = [] \<and>
   filter is_warning (logs (execute env_ok 125000 world_x)) = filter is_warning (logs world_x) \<and>
   task_error env_ok 120000 slo_x = Some (Exn ''TypeError'') \<and>
   logged world_x (slo_task env_ok 120000 slo_x world_x) =
     [LogEntry Info (Some (sloId slo_x)) None ''Aggregating SLO metrics'',
      LogEntry Error (Some (sloId slo_x)) (Some (Exn ''TypeError'')) ''Failed to check SLO''] \<and>
   slos (slo_task env_ok 120000 slo_x world_x) = slos world_x \<and>
   list_all (\<lambda>t. LogEntry Info (Some (sloId t)) None ''Aggregating SLO metrics''
                   \<in> set (logs (execute env_ok 125000 world_x))) (slos world_x) \<and>
   last (logs (execute env_ok 125000 world_x)) = LogEntry Info None None ''Finished SLO checks''"
proof -
  have h1: "\<not> (truthy (filter_str slo_x) \<and> truthy (goodCondition slo_x))"
    and h2: "\<not> (truthy (numeratorQuery slo_x) \<and> truthy (denominatorQuery slo_x))"
    by (simp_all add: slo_x_def truthy_def)
  note th = invalid_definition [OF h1 h2, where E = env_ok and a = 60000 and b = 120000
      and ?w0.0 = world_x and endTime = 120000 and now = 125000 and w = world_x
      and e = "Exn ''TypeError''"]
  show ?thesis
    using h1 h2 slo_x_error th by (intro conjI) blast+
qed

text \<open>
  C6 as it is worded fails on that SLO: the task does not set it aside with a warning.
  It starts the raw SQL branch; here \<^verbatim>\<open>injectTimeFilter\<close> throws on the missing
  query, and the log holds the error entry of the \<^verbatim>\<open>catch\<close> block and no warning.
\<close>

theorem invalid_definition_counterexample:
  "\<not> (truthy (filter_str slo_x) \<and> truthy (goodCondition slo_x)) \<and>
   \<not> (truthy (numeratorQuery slo_x) \<and> truthy (denominatorQuery slo_x)) \<and>
   logs (slo_task env_ok 120000 slo_x world_x) =
     [LogEntry Info (Some ''x'') None ''Aggregating SLO metrics'',
      LogEntry Error (Some ''x'') (Some (Exn ''TypeError'')) ''Failed to check SLO''] \<and>
   filter is_warning (logs (slo_task env_ok 120000 slo_x world_x)) = []"
proof -
  have h1: "\<not> (truthy (filter_str slo_x) \<and> truthy (goodCondition slo_x))"
    and h2: "\<not> (truthy (numeratorQuery slo_x) \<and> truthy (denominatorQuery slo_x))"
    by (simp_all add: slo_x_def truthy_def)
  have l: "logs (slo_task env_ok 120000 slo_x world_x) =
     [LogEntry Info (Some ''x'') None ''Aggregating SLO metrics'',
      LogEntry Error (Some ''x'') (Some (Exn ''TypeError'')) ''Failed to check SLO'']"
    by (simp add: logs_slo_task task_logs_cases slo_x_error) (simp add: world_x_def slo_x_def)
  have n: "filter is_warning (logs (slo_task env_ok 120000 slo_x world_x)) = []"
    by (simp add: l is_warning_def log_level_def)
  from h1 h2 l n show ?thesis by simp
qed

subsection \<open>Aggregating a window again\<close>

lemma rows_slo_task:
  "slo_aggregates (slo_task E endTime s w) = slo_aggregates w @ task_rows E endTime s"
  by (subst slo_task_frame) simp

lemma rows_run_queue:
  "slo_aggregates (run_queue E endTime ss w) =
     slo_aggregates w @ concat (map (task_rows E endTime) ss)"
  by (induction ss arbitrary: w) (simp_all add: rows_slo_task)

lemma rows_execute:
  "slo_aggregates (execute E now w) =
     slo_aggregates w @ concat (map (task_rows E (setSeconds00 E now)) (slos w))"
  by (simp add: execute_unfold rows_run_queue)

lemma select_rows_example:
  assumes "events E = events env_ok" and "holds E = holds env_ok"
    and "or_split E = or_split env_ok"
  shows "select_rows E (aggQuery slo_b0 0 60000) =
     [\<lparr> slo_id = ''b'', timestamp = 0, numerator_count = 1, denominator_count = 2 \<rparr>]"
  by (simp add: select_rows_def group_row_def in_scope_def where_clause_def aggQuery_def assms
      env_ok_def slo_b0_def slo_b_def interpolate_def sql_time_def toStartOfMinute_def Let_def)

lemma task_rows_example:
  assumes "events E = events env_ok" and "holds E = holds env_ok"
    and "or_split E = or_split env_ok"
    and "command_error E = command_error env_ok"
  shows "task_rows E 60000 slo_b0 =
     [\<lparr> slo_id = ''b'', timestamp = 0, numerator_count = 1, denominator_count = 2 \<rparr>]"
proof -
  have tr: "truthy (filter_str slo_b0) \<and> truthy (goodCondition slo_b0)"
    by (simp add: truthy_def slo_b0_def slo_b_def)
  have w: "aggregation_window 60000 slo_b0 = Some (0, 60000)"
    by (simp add: aggregation_window_def slo_b0_def slo_b_def ms_1h_def)
  have ce: "command_error E (aggQuery slo_b0 0 60000) = None"
    by (simp add: assms(4) env_ok_def)
  have "task_rows E 60000 slo_b0 = select_rows E (aggQuery slo_b0 0 60000)"
    using builder_task_rows(1) [OF tr w ce, of empty_world]
    by (simp add: task_rows_def empty_world_def)
  then show ?thesis
    by (simp add: select_rows_example [OF assms(1,2,3)])
qed

text \<open>
  C1 on the code. The SLO is in builder mode, last aggregated at 0; its table holds two
  events of the service in the minute at 0, one of them good. A tick at 65000 aggregates
  the window from 0 to 60000 and writes the bucket (1, 2); the update of the document
  fails, so the watermark stays at 0. The next run, at 70000, aggregates the same window
  again, and the bucket of the minute at 0 is (2, 4): the second insert is added to the
  first.
\<close>

theorem reaggregation_adds:
  "watermark ''b'' (slos (execute env_upd_fail 65000 world_b0)) = Some (Some 0) \<and>
   aggregation_window (setSeconds00 env_upd_fail 65000) slo_b0 = Some (0, 60000) \<and>
   aggregation_window (setSeconds00 env_ok 70000) slo_b0 = Some (0, 60000) \<and>
   bucket (slo_aggregates (execute env_upd_fail 65000 world_b0)) ''b'' 0 = (1, 2) \<and>
   bucket (slo_aggregates (execute env_ok 70000 (execute env_upd_fail 65000 world_b0))) ''b'' 0
     = (2, 4)"
proof -
  have t: "setSeconds00 env_upd_fail 65000 = 60000" "setSeconds00 env_ok 70000 = 60000"
    by (simp_all add: setSeconds00_def env_upd_fail_def env_ok_def)
  have w: "aggregation_window 60000 slo_b0 = Some (0, 60000)"
    by (simp add: aggregation_window_def slo_b0_def slo_b_def ms_1h_def)
  have tr: "truthy (filter_str slo_b0)" "truthy (goodCondition slo_b0)"
    by (simp_all add: truthy_def slo_b0_def slo_b_def)
  have same: "events env_upd_fail = events env_ok" "holds env_upd_fail = holds env_ok"
    "or_split env_upd_fail = or_split env_ok"
    "command_error env_upd_fail = command_error env_ok"
    by (simp_all add: env_upd_fail_def)
  have ce: "command_error env_upd_fail q = None" for q
    by (simp add: env_upd_fail_def env_ok_def)
  have ue: "updateOne_error env_upd_fail i u = Some (Exn ''MongoNetworkError'')" for i u
    by (simp add: env_upd_fail_def)
  have "task_error env_upd_fail 60000 slo_b0 = Some (Exn ''MongoNetworkError'')"
    by (simp add: task_error_def try_block_def w aggregate_def tr builder_mode_def ce
        update_watermark_def ue Let_def)
  then have na: "\<not> advances env_upd_fail 60000 slo_b0"
    by (simp add: advances_def)
  have sl: "slos world_b0 = [slo_b0]" and ag: "slo_aggregates world_b0 = []"
    by (simp_all add: world_b0_def)
  have s1: "slos (execute env_upd_fail 65000 world_b0) = [slo_b0]"
    using na by (simp add: execute_unfold sl t slos_slo_task)
  have r1: "slo_aggregates (execute env_upd_fail 65000 world_b0) =
      [\<lparr> slo_id = ''b'', timestamp = 0, numerator_count = 1, denominator_count = 2 \<rparr>]"
    by (simp add: rows_execute sl ag t task_rows_example [OF same])
  have r2: "slo_aggregates (execute env_ok 70000 (execute env_upd_fail 65000 world_b0)) =
      [\<lparr> slo_id = ''b'', timestamp = 0, numerator_count = 1, denominator_count = 2 \<rparr>,
       \<lparr> slo_id = ''b'', timestamp = 0, numerator_count = 1, denominator_count = 2 \<rparr>]"
    by (simp add: rows_execute [of env_ok] s1 r1 t task_rows_example [of env_ok])
  have c1: "watermark ''b'' (slos (execute env_upd_fail 65000 world_b0)) = Some (Some 0)"
    by (simp add: s1) (simp add: slo_b0_def slo_b_def)
  have c4: "bucket (slo_aggregates (execute env_upd_fail 65000 world_b0)) ''b'' 0 = (1, 2)"
    by (simp add: r1 bucket_def)
  have c5: "bucket (slo_aggregates (execute env_ok 70000 (execute env_upd_fail 65000 world_b0)))
      ''b'' 0 = (2, 4)"
    by (simp add: r2 bucket_def)
  from c1 w c4 c5 show ?thesis
    by (simp only: t simp_thms)
qed

subsection \<open>The status with no events\<close>

text \<open>
  C8. With a denominator of zero the status computation returns a result, not a division
  error: \<open>achieved\<close> is 100 and the status is healthy, for every target and numerator.
\<close>

theorem zero_denominator:
  "getStatus target numerator 0 =
     Inr \<lparr> achieved = 100, errorBudgetTotal = 0, errorBudgetUsed = - of_nat numerator,
           errorBudgetRemaining = of_nat numerator, status = healthy \<rparr>"
  by (simp add: getStatus_def)

end
